theory Spec2Isabelle
  imports Complex_Main
begin

section \<open>The typing-pattern page: data model\<close>

text \<open>
  A shallow embedding of the script of \<open>src/routes/+page.svelte\<close>. The module-level
  variables of the script become the fields of one \<open>state\<close> record; every handler is a
  function from state to state. What the script gets from the browser is made explicit:
  a clock in milliseconds with the table of pending \<open>setTimeout\<close> callbacks, the
  rendered keys of the \<open>.keyboard\<close> element, the bitmap of the canvas and the list of
  downloads triggered so far.

  JavaScript numbers are modelled as \<open>real\<close>: the script only stores, compares and
  prints them, apart from the centre of a key (\<open>left + width / 2\<close>). The literals
  \<open>0.3\<close> and \<open>0.1\<close> are written \<open>3 / 10\<close> and \<open>1 / 10\<close>. Strings are lists of
  \<open>char\<close>; a \<open>char\<close> is read as a code point below 256, and only the ASCII letters
  have a case.
\<close>

record KeyPosition =
  kp_x :: real
  kp_y :: real

datatype Theme = Dark | Light | Neon

datatype KeyShape = Rounded | Square | Circular

datatype LineStyle = Solid | Dashed | Dotted

record KeyboardSettings =
  kb_theme :: Theme
  kb_keyShape :: KeyShape
  kb_is3D :: bool
  kb_primaryColor :: string
  kb_hoverColor :: string
  kb_textColor :: string

record LineSettings =
  line_color :: string
  line_width :: real
  line_style :: LineStyle
  line_glow :: bool
  line_dotSize :: real

record Settings =
  keyboard :: KeyboardSettings
  lines :: LineSettings

text \<open>The current path of a 2D context, and the \<open>d\<close> attribute of an SVG path, are
  kept as the list of commands issued, in order.\<close>

datatype path_cmd = MoveTo real real | LineTo real real

text \<open>The part of \<open>CanvasRenderingContext2D\<close> that the script writes.\<close>

record context2d =
  cx_strokeStyle :: string
  cx_lineWidth :: real
  cx_lineCap :: string
  cx_shadowColor :: string
  cx_shadowBlur :: real
  cx_lineDash :: "real list"
  cx_path :: "path_cmd list"

text \<open>The canvas element: its size and what has been painted on it since it was last
  cleared, one entry per \<open>stroke()\<close>, each entry the context as it was at that call.\<close>

record canvas_el =
  cv_width :: nat
  cv_height :: nat
  cv_bitmap :: "context2d list"

text \<open>The bounding rectangle of a rendered key.\<close>

record DOMRect =
  rect_left :: real
  rect_top :: real
  rect_width :: real
  rect_height :: real

text \<open>The pieces of the SVG text, one per template appended to \<open>svgContent\<close>. The
  last argument of a path and of a circle says whether the attribute
  \<open>filter="url(#glow)"\<close> is present.\<close>

datatype svg_piece =
    SvgOpen "nat option" "nat option"
  | SvgGlowDefs
  | SvgPath "path_cmd list" string real string bool
  | SvgCircle real real real string bool
  | SvgClose

datatype file_body = SvgFile "svg_piece list" | PngFile "context2d list"

record download =
  file_name :: string
  file_body :: file_body

text \<open>The three closures that the script passes to \<open>setTimeout\<close>: the one of
  \<open>startFadeTimer\<close>, the one nested in it, and the one of \<open>addLetter\<close> and
  \<open>updateSettings\<close> (the same body in both).\<close>

datatype callback = FadeCallback | ExportCallback | RedrawCallback

record timer =
  tm_id :: nat
  tm_due :: nat
  tm_cb :: callback

record state =
  canvas :: "canvas_el option"
  ctx :: "context2d option"
  typedSequence :: "string list"
  currentText :: string
  keyboardVisible :: bool
  keyboardOpacity :: real
  showExportButtons :: bool
  showSettings :: bool
  fadeTimeout :: "nat option"
  exportTimeout :: "nat option"
  isHovering :: bool
  settings :: Settings
  keyPositions :: "string \<rightharpoonup> KeyPosition"
  now :: nat
  timers :: "timer list"
  nextTimer :: nat
  dom :: "(string \<times> DOMRect) list option"
  downloads :: "download list"

definition default_settings :: Settings where
  "default_settings =
     \<lparr>keyboard = \<lparr>kb_theme = Dark, kb_keyShape = Rounded, kb_is3D = False,
                   kb_primaryColor = ''dark'', kb_hoverColor = ''#4b5563'',
                   kb_textColor = ''#ffffff''\<rparr>,
      lines = \<lparr>line_color = ''#ffffff'', line_width = 4, line_style = Solid,
                line_glow = True, line_dotSize = 5\<rparr>\<rparr>"

definition keyboardLayout :: "string list list" where
  "keyboardLayout =
     [[''Q'', ''W'', ''E'', ''R'', ''T'', ''Y'', ''U'', ''I'', ''O'', ''P''],
      [''A'', ''S'', ''D'', ''F'', ''G'', ''H'', ''J'', ''K'', ''L''],
      [''Z'', ''X'', ''C'', ''V'', ''B'', ''N'', ''M'']]"

text \<open>The values the script gives its variables, before the page is mounted: no canvas,
  no context, no key position, no timer.\<close>

definition initial_state :: state where
  "initial_state =
     \<lparr>canvas = None, ctx = None, typedSequence = [], currentText = [],
      keyboardVisible = True, keyboardOpacity = 1, showExportButtons = False,
      showSettings = False, fadeTimeout = None, exportTimeout = None,
      isHovering = False, settings = default_settings, keyPositions = Map.empty,
      now = 0, timers = [], nextTimer = 0, dom = None, downloads = []\<rparr>"

section \<open>Strings\<close>

definition isUpperAZ :: "char \<Rightarrow> bool" where
  "isUpperAZ c = (65 \<le> (of_char c :: nat) \<and> (of_char c :: nat) \<le> 90)"

definition isLowerAZ :: "char \<Rightarrow> bool" where
  "isLowerAZ c = (97 \<le> (of_char c :: nat) \<and> (of_char c :: nat) \<le> 122)"

definition upperChar :: "char \<Rightarrow> char" where
  "upperChar c = (if isLowerAZ c then char_of (of_char c - 32 :: nat) else c)"

definition lowerChar :: "char \<Rightarrow> char" where
  "lowerChar c = (if isUpperAZ c then char_of (of_char c + 32 :: nat) else c)"

definition toUpperCase :: "string \<Rightarrow> string" where
  "toUpperCase str = map upperChar str"

definition toLowerCase :: "string \<Rightarrow> string" where
  "toLowerCase str = map lowerChar str"

text \<open>\<open>key.match(/^[A-Z]$/)\<close>: the whole string is one capital letter.\<close>

fun matchesCapital :: "string \<Rightarrow> bool" where
  "matchesCapital [c] = isUpperAZ c"
| "matchesCapital _ = False"

text \<open>\<open>lastChar.match(/[a-z]/i)\<close> on a single character.\<close>

definition matchesLetter :: "char \<Rightarrow> bool" where
  "matchesLetter c = (isLowerAZ c \<or> isUpperAZ c)"

text \<open>The class \<open>\s\<close> below code point 256: tab, line feed, vertical tab, form feed,
  carriage return, space and no-break space.\<close>

definition isWhitespace :: "char \<Rightarrow> bool" where
  "isWhitespace c = ((9 \<le> (of_char c :: nat) \<and> (of_char c :: nat) \<le> 13)
                      \<or> (of_char c :: nat) = 32 \<or> (of_char c :: nat) = 160)"

text \<open>\<open>str.replace(/\s+/g, '-')\<close>: every maximal run of whitespace becomes one hyphen.\<close>

function replaceWhitespace :: "string \<Rightarrow> string" where
  "replaceWhitespace [] = []"
| "replaceWhitespace (c # cs) =
     (if isWhitespace c then CHR ''-'' # replaceWhitespace (dropWhile isWhitespace cs)
      else c # replaceWhitespace cs)"
  by pat_completeness auto
termination
  by (relation "measure length") (auto simp: less_Suc_eq_le length_dropWhile_le)

section \<open>Timers\<close>

text \<open>\<open>setTimeout\<close> files the callback under a fresh handle, due \<open>delay\<close> milliseconds
  from now, and returns the handle. \<open>clearTimeout\<close> drops the timer filed under the
  handle, and does nothing for \<open>undefined\<close> or for a handle that is no longer pending.\<close>

definition setTimeout :: "callback \<Rightarrow> nat \<Rightarrow> state \<Rightarrow> nat \<times> state" where
  "setTimeout f delay s =
     (nextTimer s,
      s\<lparr>timers := timers s @ [\<lparr>tm_id = nextTimer s, tm_due = now s + delay, tm_cb = f\<rparr>],
        nextTimer := nextTimer s + 1\<rparr>)"

definition clearTimeout :: "nat option \<Rightarrow> state \<Rightarrow> state" where
  "clearTimeout h s =
     (case h of
        None \<Rightarrow> s
      | Some i \<Rightarrow> s\<lparr>timers := filter (\<lambda>t. tm_id t \<noteq> i) (timers s)\<rparr>)"

section \<open>Key positions and drawing\<close>

definition calculateKeyPositions :: "state \<Rightarrow> state" where
  "calculateKeyPositions s =
     (case dom s of
        None \<Rightarrow> s
      | Some keys \<Rightarrow>
          s\<lparr>keyPositions :=
              fold (\<lambda>(letter, rect) kp.
                      if letter \<noteq> []
                      then kp(letter \<mapsto> \<lparr>kp_x = rect_left rect + rect_width rect / 2,
                                         kp_y = rect_top rect + rect_height rect / 2\<rparr>)
                      else kp)
                   keys (keyPositions s)\<rparr>)"

text \<open>\<open>ctx.clearRect(0, 0, canvas.width, canvas.height)\<close> wipes the whole bitmap;
  \<open>ctx.stroke()\<close> paints the current path with the current style.\<close>

definition clearRect :: "canvas_el \<Rightarrow> canvas_el" where
  "clearRect cv = cv\<lparr>cv_bitmap := []\<rparr>"

definition stroke :: "context2d \<Rightarrow> canvas_el \<Rightarrow> canvas_el" where
  "stroke c cv = cv\<lparr>cv_bitmap := cv_bitmap cv @ [c]\<rparr>"

definition moveTo :: "KeyPosition \<Rightarrow> context2d \<Rightarrow> context2d" where
  "moveTo p c = c\<lparr>cx_path := cx_path c @ [MoveTo (kp_x p) (kp_y p)]\<rparr>"

definition lineTo :: "KeyPosition \<Rightarrow> context2d \<Rightarrow> context2d" where
  "lineTo p c = c\<lparr>cx_path := cx_path c @ [LineTo (kp_x p) (kp_y p)]\<rparr>"

text \<open>The \<open>for\<close> loop of \<open>redrawLines\<close>, from index \<open>i\<close> on.\<close>

function redrawLoop ::
  "string list \<Rightarrow> (string \<rightharpoonup> KeyPosition) \<Rightarrow> nat \<Rightarrow> context2d \<Rightarrow> context2d" where
  "redrawLoop ts kp i c =
     (if i < length ts - 1 then
        (case (kp (ts ! i), kp (ts ! (i + 1))) of
           (Some currentPos, Some nextPos) \<Rightarrow>
             redrawLoop ts kp (i + 1)
               (lineTo nextPos (if i = 0 then moveTo currentPos c else c))
         | _ \<Rightarrow> redrawLoop ts kp (i + 1) c)
      else c)"
  by pat_completeness auto
termination
  by (relation "measure (\<lambda>(ts, kp, i, c). length ts - i)") auto

declare redrawLoop.simps [simp del]

definition lineDash :: "LineStyle \<Rightarrow> real list" where
  "lineDash st = (if st = Dashed then [10, 5] else if st = Dotted then [2, 8] else [])"

definition redrawLines :: "state \<Rightarrow> state" where
  "redrawLines s =
     (case (ctx s, canvas s) of
        (Some c, Some cv) \<Rightarrow>
          (let cv1 = clearRect cv;
               opts = lines (settings s)
           in if length (typedSequence s) = 0 then s\<lparr>canvas := Some cv1\<rparr>
              else
                (let c1 = c\<lparr>cx_strokeStyle := line_color opts, cx_lineWidth := line_width opts,
                            cx_lineCap := ''round''\<rparr>;
                     c2 = (if line_glow opts
                           then c1\<lparr>cx_shadowColor := line_color opts, cx_shadowBlur := 10\<rparr>
                           else c1\<lparr>cx_shadowBlur := 0\<rparr>);
                     c3 = c2\<lparr>cx_lineDash := lineDash (line_style opts)\<rparr>
                 in if 2 \<le> length (typedSequence s) then
                      (let c4 = redrawLoop (typedSequence s) (keyPositions s) 0
                                  (c3\<lparr>cx_path := []\<rparr>)
                       in s\<lparr>ctx := Some c4, canvas := Some (stroke c4 cv1)\<rparr>)
                    else s\<lparr>ctx := Some c3, canvas := Some cv1\<rparr>))
      | _ \<Rightarrow> s)"

section \<open>Fade and reveal\<close>

definition startFadeTimer :: "state \<Rightarrow> state" where
  "startFadeTimer s =
     (let (h, s1) = setTimeout FadeCallback 2000 s in s1\<lparr>fadeTimeout := Some h\<rparr>)"

text \<open>The body of the closure of \<open>startFadeTimer\<close>, run when the 2000 ms are over.\<close>

definition fadeCallback :: "state \<Rightarrow> state" where
  "fadeCallback s =
     (if \<not> isHovering s then
        (let s1 = s\<lparr>keyboardOpacity := 3 / 10\<rparr>;
             (h, s2) = setTimeout ExportCallback 1000 s1
         in s2\<lparr>exportTimeout := Some h\<rparr>)
      else s)"

text \<open>The body of the nested closure, run 1000 ms later.\<close>

definition exportCallback :: "state \<Rightarrow> state" where
  "exportCallback s =
     (if \<not> isHovering s \<and> keyboardOpacity s = 3 / 10
      then s\<lparr>showExportButtons := True\<rparr> else s)"

definition redrawCallback :: "state \<Rightarrow> state" where
  "redrawCallback s = redrawLines (calculateKeyPositions s)"

fun runCallback :: "callback \<Rightarrow> state \<Rightarrow> state" where
  "runCallback FadeCallback s = fadeCallback s"
| "runCallback ExportCallback s = exportCallback s"
| "runCallback RedrawCallback s = redrawCallback s"

definition handleMouseEnter :: "state \<Rightarrow> state" where
  "handleMouseEnter s =
     (let s1 = s\<lparr>isHovering := True\<rparr>;
          s2 = clearTimeout (exportTimeout s1) (clearTimeout (fadeTimeout s1) s1)
      in s2\<lparr>keyboardOpacity := 1, showExportButtons := False\<rparr>)"

definition handleMouseLeave :: "state \<Rightarrow> state" where
  "handleMouseLeave s =
     (let s1 = s\<lparr>isHovering := False\<rparr>
      in if 0 < length (typedSequence s1) then startFadeTimer s1 else s1)"

section \<open>Typing\<close>

definition addLetter :: "string \<Rightarrow> state \<Rightarrow> state" where
  "addLetter letter s =
     (let s1 = s\<lparr>currentText := currentText s @ toLowerCase letter,
                  typedSequence := typedSequence s @ [letter]\<rparr>;
          s2 = clearTimeout (exportTimeout s1) (clearTimeout (fadeTimeout s1) s1);
          s3 = s2\<lparr>keyboardOpacity := 1, showExportButtons := False\<rparr>;
          s4 = snd (setTimeout RedrawCallback 10 s3)
      in startFadeTimer s4)"

definition addSpace :: "state \<Rightarrow> state" where
  "addSpace s =
     (if 0 < length (currentText s) \<and> last (currentText s) \<noteq> CHR '' '' then
        (let s1 = s\<lparr>currentText := currentText s @ '' ''\<rparr>;
             s2 = clearTimeout (exportTimeout s1) (clearTimeout (fadeTimeout s1) s1);
             s3 = s2\<lparr>keyboardOpacity := 1, showExportButtons := False\<rparr>
         in startFadeTimer s3)
      else s)"

definition removeLetter :: "state \<Rightarrow> state" where
  "removeLetter s =
     (if 0 < length (currentText s) then
        (let lastChar = last (currentText s);
             s1 = s\<lparr>currentText := butlast (currentText s)\<rparr>;
             s2 = (if matchesLetter lastChar
                   then s1\<lparr>typedSequence := butlast (typedSequence s1)\<rparr> else s1);
             s3 = redrawLines s2;
             s4 = clearTimeout (exportTimeout s3) (clearTimeout (fadeTimeout s3) s3);
             s5 = s4\<lparr>keyboardOpacity := 1, showExportButtons := False\<rparr>
         in if 0 < length (currentText s5) then startFadeTimer s5 else s5)
      else s)"

definition confirmTyping :: "state \<Rightarrow> state" where
  "confirmTyping s =
     (let s1 = clearTimeout (exportTimeout s) (clearTimeout (fadeTimeout s) s)
      in s1\<lparr>keyboardOpacity := 1 / 10, showExportButtons := True\<rparr>)"

text \<open>The argument is \<open>event.key\<close>.\<close>

definition handleKeyPress :: "string \<Rightarrow> state \<Rightarrow> state" where
  "handleKeyPress eventKey s =
     (let key = toUpperCase eventKey
      in if matchesCapital key then addLetter key s
         else if key = '' '' then addSpace s
         else if key = ''BACKSPACE'' then removeLetter s
         else if key = ''ENTER'' then confirmTyping s
         else s)"

definition clearCanvas :: "state \<Rightarrow> state" where
  "clearCanvas s =
     (let s1 = s\<lparr>typedSequence := [], currentText := [], showExportButtons := False,
                  keyboardOpacity := 1\<rparr>;
          s2 = clearTimeout (exportTimeout s1) (clearTimeout (fadeTimeout s1) s1)
      in case (ctx s2, canvas s2) of
           (Some c, Some cv) \<Rightarrow> s2\<lparr>canvas := Some (clearRect cv)\<rparr>
         | _ \<Rightarrow> s2)"

definition toggleSettings :: "state \<Rightarrow> state" where
  "toggleSettings s = s\<lparr>showSettings := \<not> showSettings s\<rparr>"

definition updateSettings :: "state \<Rightarrow> state" where
  "updateSettings s = snd (setTimeout RedrawCallback 10 s)"

section \<open>Export\<close>

text \<open>The first \<open>for\<close> loop of \<open>exportAsSVG\<close>, from index \<open>i\<close> on; \<open>pathData\<close> is
  the text built so far, one entry per \<open>M x y\<close> or \<open>L x y\<close> appended.\<close>

function svgPathLoop ::
  "string list \<Rightarrow> (string \<rightharpoonup> KeyPosition) \<Rightarrow> nat \<Rightarrow> path_cmd list \<Rightarrow> path_cmd list" where
  "svgPathLoop ts kp i pathData =
     (if i < length ts - 1 then
        (case (kp (ts ! i), kp (ts ! (i + 1))) of
           (Some currentPos, Some nextPos) \<Rightarrow>
             svgPathLoop ts kp (i + 1)
               ((if i = 0 then pathData @ [MoveTo (kp_x currentPos) (kp_y currentPos)]
                 else pathData)
                @ [LineTo (kp_x nextPos) (kp_y nextPos)])
         | _ \<Rightarrow> svgPathLoop ts kp (i + 1) pathData)
      else pathData)"
  by pat_completeness auto
termination
  by (relation "measure (\<lambda>(ts, kp, i, pathData). length ts - i)") auto

declare svgPathLoop.simps [simp del]

definition strokeDasharray :: "LineStyle \<Rightarrow> string" where
  "strokeDasharray st =
     (if st = Dashed then ''10,5'' else if st = Dotted then ''2,8'' else ''none'')"

text \<open>The body of \<open>typedSequence.forEach\<close> in \<open>exportAsSVG\<close>.\<close>

definition svgDot ::
  "(string \<rightharpoonup> KeyPosition) \<Rightarrow> LineSettings \<Rightarrow> string \<Rightarrow> svg_piece list \<Rightarrow> svg_piece list" where
  "svgDot kp opts letter svgContent =
     (case kp letter of
        Some pos \<Rightarrow>
          svgContent @ [SvgCircle (kp_x pos) (kp_y pos) (line_dotSize opts) (line_color opts)
                          (line_glow opts)]
      | None \<Rightarrow> svgContent)"

definition exportAsSVG :: "state \<Rightarrow> state" where
  "exportAsSVG s =
     (if length (typedSequence s) < 2 then s
      else
        (let opts = lines (settings s);
             svg0 = [SvgOpen (map_option cv_width (canvas s))
                       (map_option cv_height (canvas s))];
             svg1 = (if line_glow opts then svg0 @ [SvgGlowDefs] else svg0);
             pathData = svgPathLoop (typedSequence s) (keyPositions s) 0 [];
             svg2 = svg1 @ [SvgPath pathData (line_color opts) (line_width opts)
                              (strokeDasharray (line_style opts)) (line_glow opts)];
             svg3 = fold (svgDot (keyPositions s) opts) (typedSequence s) svg2;
             svg4 = svg3 @ [SvgClose]
         in s\<lparr>downloads := downloads s @
                 [\<lparr>file_name = ''typing-pattern-'' @ replaceWhitespace (currentText s)
                                 @ ''.svg'',
                   file_body = SvgFile svg4\<rparr>]\<rparr>))"

definition exportAsPNG :: "state \<Rightarrow> state" where
  "exportAsPNG s =
     (case canvas s of
        None \<Rightarrow> s
      | Some cv \<Rightarrow>
          s\<lparr>downloads := downloads s @
              [\<lparr>file_name = ''typing-pattern-'' @ replaceWhitespace (currentText s)
                              @ ''.png'',
                file_body = PngFile (cv_bitmap cv)\<rparr>]\<rparr>)"

section \<open>The event loop\<close>

text \<open>
  One millisecond passes: the clock moves, the timers that are due leave the table and
  their callbacks run in the order in which they were filed. Every delay in the script
  is at least 10 ms, so a callback never files a timer that is due in the same
  millisecond. The clock is ideal: a callback runs in the millisecond in which it is
  due.
\<close>

definition tick :: "state \<Rightarrow> state" where
  "tick s =
     (let s1 = s\<lparr>now := now s + 1\<rparr>;
          ready = filter (\<lambda>t. tm_due t \<le> now s1) (timers s1);
          s2 = s1\<lparr>timers := filter (\<lambda>t. \<not> tm_due t \<le> now s1) (timers s1)\<rparr>
      in fold runCallback (map tm_cb ready) s2)"

fun advance :: "nat \<Rightarrow> state \<Rightarrow> state" where
  "advance 0 s = s"
| "advance (Suc d) s = advance d (tick s)"

text \<open>
  \<open>onMount\<close>, with what the browser supplies: the element bound to \<open>canvas\<close>, the
  result of \<open>getContext('2d')\<close>, and the size of the window. The resize listener that
  \<open>onMount\<close> registers is not modelled.
\<close>

definition onMount ::
  "canvas_el option \<Rightarrow> context2d option \<Rightarrow> nat \<Rightarrow> nat \<Rightarrow> state \<Rightarrow> state" where
  "onMount element context innerWidth innerHeight s =
     (let s0 = s\<lparr>canvas := element\<rparr>
      in case canvas s0 of
           None \<Rightarrow> s0
         | Some cv \<Rightarrow>
             (let s1 = s0\<lparr>ctx := context\<rparr>
              in case ctx s1 of
                   None \<Rightarrow> s1
                 | Some c \<Rightarrow>
                     calculateKeyPositions
                       (s1\<lparr>canvas := Some (cv\<lparr>cv_width := innerWidth,
                                                 cv_height := innerHeight\<rparr>)\<rparr>)))"

text \<open>
  What can happen to the page. A click on a key of the on-screen keyboard calls
  \<open>addLetter\<close> with a letter of \<open>keyboardLayout\<close>; the export buttons exist only
  while \<open>showExportButtons\<close> holds; a change in the settings panel stores the new
  settings and calls \<open>updateSettings\<close>; \<open>Layout\<close> is the browser laying the keyboard
  out anew. \<open>Clear\<close> is a call of \<open>clearCanvas\<close>, which no control of the page makes
  but which the script defines.
\<close>

datatype event =
    Mount "canvas_el option" "context2d option" nat nat
  | KeyDown string
  | ClickKey string
  | MouseEnter
  | MouseLeave
  | Advance nat
  | Clear
  | ClickExportSVG
  | ClickExportPNG
  | ToggleSettings
  | ChangeSettings Settings
  | Layout "(string \<times> DOMRect) list option"

fun step :: "event \<Rightarrow> state \<Rightarrow> state" where
  "step (Mount element context w h) s = onMount element context w h s"
| "step (KeyDown k) s = handleKeyPress k s"
| "step (ClickKey letter) s =
     (if letter \<in> set (concat keyboardLayout) then addLetter letter s else s)"
| "step MouseEnter s = handleMouseEnter s"
| "step MouseLeave s = handleMouseLeave s"
| "step (Advance d) s = advance d s"
| "step Clear s = clearCanvas s"
| "step ClickExportSVG s = (if showExportButtons s then exportAsSVG s else s)"
| "step ClickExportPNG s = (if showExportButtons s then exportAsPNG s else s)"
| "step ToggleSettings s = toggleSettings s"
| "step (ChangeSettings st) s = updateSettings (s\<lparr>settings := st\<rparr>)"
| "step (Layout d) s = s\<lparr>dom := d\<rparr>"

fun run :: "event list \<Rightarrow> state \<Rightarrow> state" where
  "run [] s = s"
| "run (e # es) s = run es (step e s)"

section \<open>Notions used in the statements\<close>

text \<open>A key name that is one ASCII letter, in either case.\<close>

fun isLetterKey :: "string \<Rightarrow> bool" where
  "isLetterKey [c] = matchesLetter c"
| "isLetterKey _ = False"

text \<open>The letter an event types, if it types one: a letter key pressed, or a key of
  the on-screen keyboard clicked.\<close>

fun letterOf :: "event \<Rightarrow> string option" where
  "letterOf (KeyDown k) = (if isLetterKey k then Some k else None)"
| "letterOf (ClickKey letter) =
     (if letter \<in> set (concat keyboardLayout) then Some letter else None)"
| "letterOf _ = None"

definition typedLetters :: "event list \<Rightarrow> string list" where
  "typedLetters es = List.map_filter letterOf es"

text \<open>Events that are no letter, no space, no backspace and no clear.\<close>

fun keepsText :: "event \<Rightarrow> bool" where
  "keepsText (KeyDown k) =
     (\<not> isLetterKey k \<and> toUpperCase k \<noteq> '' '' \<and> toUpperCase k \<noteq> ''BACKSPACE'')"
| "keepsText (ClickKey letter) = (letter \<notin> set (concat keyboardLayout))"
| "keepsText Clear = False"
| "keepsText _ = True"

text \<open>No two spaces in a row, and no space in front.\<close>

fun noDoubleSpace :: "string \<Rightarrow> bool" where
  "noDoubleSpace (a # b # cs) = (\<not> (a = CHR '' '' \<and> b = CHR '' '') \<and> noDoubleSpace (b # cs))"
| "noDoubleSpace _ = True"

fun noLeadingSpace :: "string \<Rightarrow> bool" where
  "noLeadingSpace (c # cs) = (c \<noteq> CHR '' '')"
| "noLeadingSpace [] = True"

text \<open>The text holds small letters and spaces only, and the sequence is its letters in
  upper case.\<close>

definition mirrors :: "state \<Rightarrow> bool" where
  "mirrors s =
     (list_all (\<lambda>c. isLowerAZ c \<or> c = CHR '' '') (currentText s) \<and>
      typedSequence s = map (\<lambda>c. [upperChar c]) (filter (\<lambda>c. c \<noteq> CHR '' '') (currentText s)))"

text \<open>Every pending fade or reveal timer is the one filed under \<open>fadeTimeout\<close> or
  under \<open>exportTimeout\<close>: none has lost its handle.\<close>

definition tracked :: "state \<Rightarrow> bool" where
  "tracked s =
     list_all (\<lambda>t. tm_cb t = RedrawCallback \<or> Some (tm_id t) = fadeTimeout s
                   \<or> Some (tm_id t) = exportTimeout s) (timers s)"

definition onlyRedraws :: "timer list \<Rightarrow> bool" where
  "onlyRedraws ts = list_all (\<lambda>t. tm_cb t = RedrawCallback) ts"

text \<open>What \<open>clearTimeout(fadeTimeout)\<close> and \<open>clearTimeout(exportTimeout)\<close> leave of a
  timer table.\<close>

definition withoutHandles :: "nat option \<Rightarrow> nat option \<Rightarrow> timer list \<Rightarrow> timer list" where
  "withoutHandles f e ts = filter (\<lambda>t. Some (tm_id t) \<noteq> f \<and> Some (tm_id t) \<noteq> e) ts"

fun isLineTo :: "path_cmd \<Rightarrow> bool" where
  "isLineTo (LineTo px py) = True"
| "isLineTo (MoveTo px py) = False"

text \<open>One line-to for every pair of neighbours in the sequence whose two positions are
  known, to the position of the second; nothing for the other pairs.\<close>

fun pairLines :: "(string \<rightharpoonup> KeyPosition) \<Rightarrow> string list \<Rightarrow> path_cmd list" where
  "pairLines kp (a # b # rest) =
     (case (kp a, kp b) of
        (Some p, Some q) \<Rightarrow> [LineTo (kp_x q) (kp_y q)]
      | _ \<Rightarrow> [])
     @ pairLines kp (b # rest)"
| "pairLines kp _ = []"

fun firstPairResolved :: "(string \<rightharpoonup> KeyPosition) \<Rightarrow> string list \<Rightarrow> bool" where
  "firstPairResolved kp (a # b # rest) = (kp a \<noteq> None \<and> kp b \<noteq> None)"
| "firstPairResolved kp _ = False"

fun moveToFirst :: "(string \<rightharpoonup> KeyPosition) \<Rightarrow> string list \<Rightarrow> path_cmd list" where
  "moveToFirst kp (a # rest) =
     (case kp a of Some p \<Rightarrow> [MoveTo (kp_x p) (kp_y p)] | None \<Rightarrow> [])"
| "moveToFirst kp [] = []"

text \<open>The polyline as the specification words it: a move-to at the first position that
  is known, then a line-to at every later position that is known.\<close>

definition claimedPolyline :: "(string \<rightharpoonup> KeyPosition) \<Rightarrow> string list \<Rightarrow> path_cmd list" where
  "claimedPolyline kp ts =
     (case List.map_filter kp ts of
        [] \<Rightarrow> []
      | p # ps \<Rightarrow> MoveTo (kp_x p) (kp_y p) # map (\<lambda>q. LineTo (kp_x q) (kp_y q)) ps)"

text \<open>The paths painted on the canvas, and the parts of a downloaded file.\<close>

definition paintedPaths :: "state \<Rightarrow> path_cmd list list" where
  "paintedPaths s = (case canvas s of None \<Rightarrow> [] | Some cv \<Rightarrow> map cx_path (cv_bitmap cv))"

fun svgPieces :: "file_body \<Rightarrow> svg_piece list" where
  "svgPieces (SvgFile ps) = ps"
| "svgPieces (PngFile bm) = []"

fun pathOf :: "svg_piece \<Rightarrow> path_cmd list option" where
  "pathOf (SvgPath d col w dash glow) = Some d"
| "pathOf _ = None"

fun isCircle :: "svg_piece \<Rightarrow> bool" where
  "isCircle (SvgCircle cx cy r col glow) = True"
| "isCircle _ = False"

definition svgPaths :: "file_body \<Rightarrow> path_cmd list list" where
  "svgPaths body = List.map_filter pathOf (svgPieces body)"

definition svgCircles :: "file_body \<Rightarrow> svg_piece list" where
  "svgCircles body = filter isCircle (svgPieces body)"

text \<open>The circle that \<open>exportAsSVG\<close> writes for a letter whose position is known.\<close>

definition circleFor :: "state \<Rightarrow> string \<Rightarrow> svg_piece list" where
  "circleFor s letter =
     (case keyPositions s letter of
        Some pos \<Rightarrow> [SvgCircle (kp_x pos) (kp_y pos) (line_dotSize (lines (settings s)))
                       (line_color (lines (settings s))) (line_glow (lines (settings s)))]
      | None \<Rightarrow> [])"

fun radiusOf :: "svg_piece \<Rightarrow> real" where
  "radiusOf (SvgCircle cx cy r col glow) = r"
| "radiusOf _ = 0"

text \<open>
  What the fade machine sees of a state: the clock, \<open>isHovering\<close>, the opacity, the
  visibility of the export buttons, and the pending fade and reveal timers as pairs of
  due time and callback. The redraw timers are left out: their callback touches none of
  these. \<open>viewRun\<close> and \<open>viewTick\<close> are \<open>runCallback\<close> and \<open>tick\<close> on that view.
\<close>

type_synonym fade_view = "nat \<times> bool \<times> real \<times> bool \<times> (nat \<times> callback) list"

definition pendingFades :: "timer list \<Rightarrow> (nat \<times> callback) list" where
  "pendingFades ts =
     map (\<lambda>t. (tm_due t, tm_cb t)) (filter (\<lambda>t. tm_cb t \<noteq> RedrawCallback) ts)"

definition viewOf :: "state \<Rightarrow> fade_view" where
  "viewOf s =
     (now s, isHovering s, keyboardOpacity s, showExportButtons s, pendingFades (timers s))"

fun viewRun :: "callback \<Rightarrow> fade_view \<Rightarrow> fade_view" where
  "viewRun FadeCallback (n, h, opa, ex, p) =
     (if \<not> h then (n, h, 3 / 10, ex, p @ [(n + 1000, ExportCallback)])
      else (n, h, opa, ex, p))"
| "viewRun ExportCallback (n, h, opa, ex, p) =
     (if \<not> h \<and> opa = 3 / 10 then (n, h, opa, True, p) else (n, h, opa, ex, p))"
| "viewRun RedrawCallback v = v"

fun viewTick :: "fade_view \<Rightarrow> fade_view" where
  "viewTick (n, h, opa, ex, p) =
     fold viewRun (map snd (filter (\<lambda>dc. fst dc \<le> n + 1) p))
       (n + 1, h, opa, ex, filter (\<lambda>dc. \<not> fst dc \<le> n + 1) p)"

text \<open>The schedule after an input at time \<open>t0\<close>: fully visible with the fade timer
  pending, then faded with the reveal timer pending, then faded with the export buttons
  shown and nothing pending.\<close>

fun onSchedule :: "nat \<Rightarrow> fade_view \<Rightarrow> bool" where
  "onSchedule t0 (n, h, opa, ex, p) =
     (\<not> h \<and>
      (if n < t0 + 2000 then opa = 1 \<and> \<not> ex \<and> p = [(t0 + 2000, FadeCallback)]
       else if n < t0 + 3000 then opa = 3 / 10 \<and> \<not> ex \<and> p = [(t0 + 3000, ExportCallback)]
       else opa = 3 / 10 \<and> ex \<and> p = []))"

text \<open>The inputs after which the script calls \<open>startFadeTimer\<close>: a letter, a space that
  is accepted, a backspace that leaves some text.\<close>

fun restartsFade :: "event \<Rightarrow> state \<Rightarrow> bool" where
  "restartsFade (KeyDown k) s =
     (isLetterKey k
      \<or> (toUpperCase k = '' '' \<and> currentText s \<noteq> [] \<and> last (currentText s) \<noteq> CHR '' '')
      \<or> (toUpperCase k = ''BACKSPACE'' \<and> 2 \<le> length (currentText s)))"
| "restartsFade (ClickKey letter) s = (letter \<in> set (concat keyboardLayout))"
| "restartsFade e s = False"

text \<open>The file that \<open>exportAsSVG\<close> hands to the browser: the last download after the
  call.\<close>

definition exportedSvg :: "state \<Rightarrow> file_body" where
  "exportedSvg s = file_body (last (downloads (exportAsSVG s)))"

text \<open>Two states for the examples: a mounted page on which H, I, H were typed with the
  positions of both keys known, and one on which A, B, C, D were typed while the
  position of C is not known.\<close>

definition blankContext :: context2d where
  "blankContext =
     \<lparr>cx_strokeStyle = ''#000000'', cx_lineWidth = 1, cx_lineCap = ''butt'',
      cx_shadowColor = ''rgba(0, 0, 0, 0)'', cx_shadowBlur = 0, cx_lineDash = [],
      cx_path = []\<rparr>"

definition typedHIH :: state where
  "typedHIH =
     initial_state
       \<lparr>canvas := Some \<lparr>cv_width = 800, cv_height = 600, cv_bitmap = []\<rparr>,
        ctx := Some blankContext,
        typedSequence := [''H'', ''I'', ''H''],
        currentText := ''hih'',
        keyPositions := [''H'' \<mapsto> \<lparr>kp_x = 6, kp_y = 2\<rparr>, ''I'' \<mapsto> \<lparr>kp_x = 8, kp_y = 1\<rparr>]\<rparr>"

definition typedABCD :: state where
  "typedABCD =
     initial_state
       \<lparr>canvas := Some \<lparr>cv_width = 800, cv_height = 600, cv_bitmap = []\<rparr>,
        ctx := Some blankContext,
        typedSequence := [''A'', ''B'', ''C'', ''D''],
        currentText := ''abcd'',
        keyPositions := [''A'' \<mapsto> \<lparr>kp_x = 0, kp_y = 0\<rparr>, ''B'' \<mapsto> \<lparr>kp_x = 1, kp_y = 0\<rparr>,
                         ''D'' \<mapsto> \<lparr>kp_x = 3, kp_y = 0\<rparr>]\<rparr>"

section \<open>Lemmas\<close>

subsection \<open>Letters and case\<close>

lemma upperChar_lowerChar: "isUpperAZ c \<Longrightarrow> upperChar (lowerChar c) = c"
  by (simp add: upperChar_def lowerChar_def isUpperAZ_def isLowerAZ_def)

lemma upperChar_id: "isUpperAZ c \<Longrightarrow> upperChar c = c"
  by (simp add: upperChar_def isUpperAZ_def isLowerAZ_def)

lemma lowerChar_lower: "matchesLetter c \<Longrightarrow> isLowerAZ (lowerChar c)"
  by (auto simp add: lowerChar_def isUpperAZ_def isLowerAZ_def matchesLetter_def)

lemma upperChar_capital: "matchesLetter c \<Longrightarrow> isUpperAZ (upperChar c)"
  by (auto simp add: upperChar_def isUpperAZ_def isLowerAZ_def matchesLetter_def)

lemma capital_upperChar: "isUpperAZ (upperChar c) \<Longrightarrow> matchesLetter c"
  by (auto simp add: upperChar_def matchesLetter_def split: if_splits)

lemma lowerChar_upperChar: "lowerChar (upperChar c) = lowerChar c"
  by (auto simp add: upperChar_def lowerChar_def isUpperAZ_def isLowerAZ_def)

lemma upperChar_lowerChar_any: "upperChar (lowerChar c) = upperChar c"
  by (auto simp add: upperChar_def lowerChar_def isUpperAZ_def isLowerAZ_def)

lemma space_not_letter: "\<not> matchesLetter (CHR '' '')"
  by (simp add: isLowerAZ_def isUpperAZ_def matchesLetter_def)

lemma matchesCapital_iff: "matchesCapital k \<longleftrightarrow> (\<exists>c. k = [c] \<and> isUpperAZ c)"
  by (cases k rule: matchesCapital.cases) auto

lemma isLetterKey_iff: "isLetterKey k \<longleftrightarrow> (\<exists>c. k = [c] \<and> matchesLetter c)"
  by (cases k rule: isLetterKey.cases) auto

lemma matchesCapital_toUpperCase: "matchesCapital (toUpperCase k) = isLetterKey k"
  by (cases k rule: isLetterKey.cases)
     (auto simp: toUpperCase_def upperChar_capital capital_upperChar)

lemma layout_capitals: "\<forall>letter \<in> set (concat keyboardLayout). matchesCapital letter"
  by code_simp

lemma layout_letter: "letter \<in> set (concat keyboardLayout) \<Longrightarrow> \<exists>c. letter = [c] \<and> isUpperAZ c"
  using layout_capitals matchesCapital_iff by blast

subsection \<open>What the operations leave alone\<close>

lemma clearTimeout_upd:
  "clearTimeout h s =
     s\<lparr>timers := (case h of None \<Rightarrow> timers s | Some i \<Rightarrow> filter (\<lambda>t. tm_id t \<noteq> i) (timers s))\<rparr>"
  by (cases h) (simp_all add: clearTimeout_def)

lemma redrawLines_keeps [simp]:
  "typedSequence (redrawLines s) = typedSequence s"
  "currentText (redrawLines s) = currentText s"
  "keyboardOpacity (redrawLines s) = keyboardOpacity s"
  "showExportButtons (redrawLines s) = showExportButtons s"
  "fadeTimeout (redrawLines s) = fadeTimeout s"
  "exportTimeout (redrawLines s) = exportTimeout s"
  "isHovering (redrawLines s) = isHovering s"
  "now (redrawLines s) = now s"
  "timers (redrawLines s) = timers s"
  "nextTimer (redrawLines s) = nextTimer s"
  "downloads (redrawLines s) = downloads s"
  by (simp_all add: redrawLines_def Let_def split: option.splits)

lemma calculateKeyPositions_keeps [simp]:
  "typedSequence (calculateKeyPositions s) = typedSequence s"
  "currentText (calculateKeyPositions s) = currentText s"
  "keyboardOpacity (calculateKeyPositions s) = keyboardOpacity s"
  "showExportButtons (calculateKeyPositions s) = showExportButtons s"
  "fadeTimeout (calculateKeyPositions s) = fadeTimeout s"
  "exportTimeout (calculateKeyPositions s) = exportTimeout s"
  "isHovering (calculateKeyPositions s) = isHovering s"
  "now (calculateKeyPositions s) = now s"
  "timers (calculateKeyPositions s) = timers s"
  "nextTimer (calculateKeyPositions s) = nextTimer s"
  "downloads (calculateKeyPositions s) = downloads s"
  by (simp_all add: calculateKeyPositions_def split: option.splits)

lemmas handler_defs =
  addLetter_def addSpace_def removeLetter_def confirmTyping_def clearCanvas_def
  handleMouseEnter_def handleMouseLeave_def startFadeTimer_def setTimeout_def
  clearTimeout_upd Let_def

lemma addLetter_text:
  "typedSequence (addLetter letter s) = typedSequence s @ [letter]"
  "currentText (addLetter letter s) = currentText s @ toLowerCase letter"
  by (simp_all add: handler_defs)

lemma addSpace_text:
  "typedSequence (addSpace s) = typedSequence s"
  "currentText (addSpace s) =
     (if currentText s \<noteq> [] \<and> last (currentText s) \<noteq> CHR '' ''
      then currentText s @ '' '' else currentText s)"
  by (simp_all add: handler_defs)

lemma removeLetter_text:
  "typedSequence (removeLetter s) =
     (if currentText s \<noteq> [] \<and> matchesLetter (last (currentText s))
      then butlast (typedSequence s) else typedSequence s)"
  "currentText (removeLetter s) = butlast (currentText s)"
  by (simp_all add: handler_defs)

lemma confirmTyping_text:
  "typedSequence (confirmTyping s) = typedSequence s"
  "currentText (confirmTyping s) = currentText s"
  by (simp_all add: handler_defs)

subsection \<open>Text and sequence under each event\<close>

lemma fold_runCallback_text:
  "typedSequence (fold runCallback cbs s) = typedSequence s \<and>
   currentText (fold runCallback cbs s) = currentText s"
proof (induction cbs arbitrary: s)
  case Nil
  show ?case by simp
next
  case (Cons cb cbs)
  have "typedSequence (runCallback cb s) = typedSequence s \<and>
        currentText (runCallback cb s) = currentText s"
    by (cases cb)
       (simp_all add: fadeCallback_def exportCallback_def redrawCallback_def
          setTimeout_def Let_def)
  with Cons show ?case by simp
qed

lemma tick_text:
  "typedSequence (tick s) = typedSequence s" "currentText (tick s) = currentText s"
  by (simp_all add: tick_def Let_def fold_runCallback_text)

lemma advance_text:
  "typedSequence (advance d s) = typedSequence s \<and> currentText (advance d s) = currentText s"
  by (induction d arbitrary: s) (simp_all add: tick_text)

lemma keepsText_step:
  "keepsText e \<Longrightarrow>
   typedSequence (step e s) = typedSequence s \<and> currentText (step e s) = currentText s"
proof (cases e)
  case (KeyDown k)
  assume "keepsText e"
  with KeyDown show ?thesis
    by (simp add: handleKeyPress_def Let_def matchesCapital_toUpperCase confirmTyping_text)
next
  case (Advance d)
  then show ?thesis by (simp add: advance_text)
next
  case (Mount el cx w h)
  then show ?thesis by (simp add: onMount_def Let_def split: option.splits)
qed (simp_all add: handler_defs exportAsSVG_def exportAsPNG_def toggleSettings_def
       updateSettings_def split: option.splits)

lemma letter_step:
  assumes "letterOf e = Some l"
  shows "typedSequence (step e s) = typedSequence s @ [toUpperCase l] \<and>
         currentText (step e s) = currentText s @ toLowerCase l"
proof (cases e)
  case (KeyDown k)
  with assms have k: "isLetterKey k" "l = k" by (simp_all split: if_splits)
  have "toLowerCase (toUpperCase k) = toLowerCase k"
    by (simp add: toLowerCase_def toUpperCase_def lowerChar_upperChar)
  with KeyDown k show ?thesis
    by (simp add: handleKeyPress_def Let_def matchesCapital_toUpperCase addLetter_text)
next
  case (ClickKey letter)
  with assms have l: "letter \<in> set (concat keyboardLayout)" "l = letter"
    by (simp_all split: if_splits)
  then obtain c where "letter = [c]" "isUpperAZ c" using layout_letter by blast
  then have "toUpperCase letter = letter" by (simp add: toUpperCase_def upperChar_id)
  with ClickKey l show ?thesis by (simp add: addLetter_text)
qed (use assms in simp_all)

lemma run_append: "run (es @ fs) s = run fs (run es s)"
  by (induction es arbitrary: s) simp_all

lemma run_letters:
  assumes "\<forall>e \<in> set es. letterOf e \<noteq> None \<or> keepsText e"
  shows "typedSequence (run es s) = typedSequence s @ map toUpperCase (typedLetters es) \<and>
         currentText (run es s) = currentText s @ concat (map toLowerCase (typedLetters es))"
  using assms
proof (induction es arbitrary: s)
  case Nil
  show ?case by (simp add: typedLetters_def List.map_filter_simps)
next
  case (Cons e es)
  show ?case
  proof (cases "letterOf e")
    case None
    with Cons.prems have "keepsText e" by simp
    then have "typedSequence (step e s) = typedSequence s \<and> currentText (step e s) = currentText s"
      by (rule keepsText_step)
    moreover have "typedLetters (e # es) = typedLetters es"
      using None by (simp add: typedLetters_def List.map_filter_simps)
    ultimately show ?thesis using Cons.IH [of "step e s"] Cons.prems by simp
  next
    case (Some l)
    then have "typedSequence (step e s) = typedSequence s @ [toUpperCase l] \<and>
         currentText (step e s) = currentText s @ toLowerCase l"
      by (rule letter_step)
    moreover have "typedLetters (e # es) = l # typedLetters es"
      using Some by (simp add: typedLetters_def List.map_filter_simps)
    ultimately show ?thesis using Cons.IH [of "step e s"] Cons.prems by simp
  qed
qed

section \<open>Replaying letters\<close>

text \<open>
  Claim C1. Take any run from the initial state in which every event either types a
  letter (a letter key in either case, or a click on a key of the on-screen keyboard) or
  is neither a space, a backspace nor a clear, and in which at least two letters are
  typed. Then \<open>typedSequence\<close> is the list of the typed letters in upper case, in the
  order typed, and \<open>currentText\<close> is their concatenation in lower case, with no space
  in between.
\<close>

theorem letters_replay:
  assumes "\<forall>e \<in> set es. letterOf e \<noteq> None \<or> keepsText e"
    and "2 \<le> length (typedLetters es)"
  shows "typedSequence (run es initial_state) = map toUpperCase (typedLetters es) \<and>
         currentText (run es initial_state) = concat (map toLowerCase (typedLetters es))"
  using run_letters [OF assms(1), of initial_state] by (simp add: initial_state_def)

theorem letters_replay_witness:
  "list_all (\<lambda>e. letterOf e \<noteq> None \<or> keepsText e)
     [KeyDown ''h'', Advance 5, ClickKey ''I'', KeyDown ''Shift'', MouseEnter, KeyDown ''Z'']
   \<and> 2 \<le> length (typedLetters [KeyDown ''h'', Advance 5, ClickKey ''I'', KeyDown ''Shift'', MouseEnter, KeyDown ''Z''])
   \<and> typedSequence (run [KeyDown ''h'', Advance 5, ClickKey ''I'', KeyDown ''Shift'', MouseEnter, KeyDown ''Z''] initial_state)
       = [''H'', ''I'', ''Z'']
   \<and> currentText (run [KeyDown ''h'', Advance 5, ClickKey ''I'', KeyDown ''Shift'', MouseEnter, KeyDown ''Z''] initial_state)
       = ''hiz''"
proof -
  let ?es = "[KeyDown ''h'', Advance 5, ClickKey ''I'', KeyDown ''Shift'', MouseEnter, KeyDown ''Z'']"
  have h1: "\<forall>e \<in> set ?es. letterOf e \<noteq> None \<or> keepsText e" by code_simp
  have h2: "2 \<le> length (typedLetters ?es)" by code_simp
  have l: "map toUpperCase (typedLetters ?es) = [''H'', ''I'', ''Z'']" by code_simp
  have t: "concat (map toLowerCase (typedLetters ?es)) = ''hiz''" by code_simp
  from letters_replay [OF h1 h2] h1 h2 l t show ?thesis by (simp add: list_all_iff)
qed

lemma letterOf_letter: "letterOf e = Some l \<Longrightarrow> \<exists>c. l = [c] \<and> matchesLetter c"
proof (cases e)
  case (KeyDown k)
  assume "letterOf e = Some l"
  with KeyDown show ?thesis by (auto simp: isLetterKey_iff split: if_splits)
next
  case (ClickKey letter)
  assume "letterOf e = Some l"
  with ClickKey have "l \<in> set (concat keyboardLayout)" by (simp split: if_splits)
  then show ?thesis using layout_letter by (auto simp: matchesLetter_def)
qed simp_all

lemma upper_BACKSPACE: "toUpperCase ''Backspace'' = ''BACKSPACE''"
  by code_simp

lemma upper_ENTER: "toUpperCase ''Enter'' = ''ENTER''"
  by code_simp

lemma upper_space: "toUpperCase '' '' = '' ''"
  by code_simp

lemma handleKeyPress_other:
  "toUpperCase k = '' '' \<Longrightarrow> handleKeyPress k s = addSpace s"
  "toUpperCase k = ''BACKSPACE'' \<Longrightarrow> handleKeyPress k s = removeLetter s"
  "toUpperCase k = ''ENTER'' \<Longrightarrow> handleKeyPress k s = confirmTyping s"
  by (simp_all add: handleKeyPress_def Let_def isUpperAZ_def)

lemma press_Backspace: "handleKeyPress ''Backspace'' s = removeLetter s"
  by (simp add: handleKeyPress_other upper_BACKSPACE)

lemma press_Enter: "handleKeyPress ''Enter'' s = confirmTyping s"
  by (simp add: handleKeyPress_other upper_ENTER)

lemma press_space: "handleKeyPress '' '' s = addSpace s"
  by (simp add: handleKeyPress_other upper_space)

lemma clearCanvas_text: "typedSequence (clearCanvas s) = [] \<and> currentText (clearCanvas s) = []"
  by (simp add: handler_defs split: option.splits)

lemma step_text_cases:
  "(currentText (step e s) = currentText s \<and> typedSequence (step e s) = typedSequence s)
   \<or> (\<exists>c. matchesLetter c \<and> currentText (step e s) = currentText s @ [lowerChar c]
          \<and> typedSequence (step e s) = typedSequence s @ [[upperChar c]])
   \<or> (currentText s \<noteq> [] \<and> last (currentText s) \<noteq> CHR '' ''
        \<and> currentText (step e s) = currentText s @ '' ''
        \<and> typedSequence (step e s) = typedSequence s)
   \<or> (currentText s \<noteq> [] \<and> currentText (step e s) = butlast (currentText s)
        \<and> typedSequence (step e s) =
            (if matchesLetter (last (currentText s)) then butlast (typedSequence s)
             else typedSequence s))
   \<or> (currentText (step e s) = [] \<and> typedSequence (step e s) = [])"
proof (cases "letterOf e")
  case (Some l)
  then obtain c where c: "l = [c]" "matchesLetter c" using letterOf_letter by blast
  from letter_step [OF Some, of s] c show ?thesis
    by (auto simp: toUpperCase_def toLowerCase_def)
next
  case None
  show ?thesis
  proof (cases "keepsText e")
    case True
    then show ?thesis using keepsText_step [of e s] by simp
  next
    case False
    show ?thesis
    proof (cases e)
      case (KeyDown k)
      with None False have k: "\<not> matchesCapital (toUpperCase k)"
          "toUpperCase k = '' '' \<or> toUpperCase k = ''BACKSPACE''"
        by (auto simp: matchesCapital_toUpperCase split: if_splits)
      from k(2) show ?thesis
      proof
        assume "toUpperCase k = '' ''"
        with KeyDown show ?thesis
          by (simp add: handleKeyPress_other addSpace_text)
      next
        assume "toUpperCase k = ''BACKSPACE''"
        with KeyDown show ?thesis
          by (simp add: handleKeyPress_other removeLetter_text)
      qed
    next
      case Clear
      then show ?thesis by (simp add: clearCanvas_text)
    next
      case (ClickKey letter)
      with None False show ?thesis by (simp split: if_splits)
    qed (use False in simp_all)
  qed
qed

section \<open>Lemmas on spacing and on the sequence\<close>

subsection \<open>Spacing\<close>

lemma noDoubleSpace_snoc:
  "noDoubleSpace (t @ [c]) =
     (noDoubleSpace t \<and> (t \<noteq> [] \<longrightarrow> \<not> (last t = CHR '' '' \<and> c = CHR '' '')))"
  by (induction t rule: noDoubleSpace.induct) auto

lemma noDoubleSpace_butlast: "noDoubleSpace t \<Longrightarrow> noDoubleSpace (butlast t)"
proof (cases "t = []")
  case False
  assume "noDoubleSpace t"
  then have "noDoubleSpace (butlast t @ [last t])" using False by simp
  then show ?thesis by (simp only: noDoubleSpace_snoc)
qed simp

lemma noLeadingSpace_snoc:
  "noLeadingSpace (t @ [c]) = (if t = [] then c \<noteq> CHR '' '' else noLeadingSpace t)"
  by (cases t) simp_all

lemma noLeadingSpace_butlast: "noLeadingSpace t \<Longrightarrow> noLeadingSpace (butlast t)"
  by (cases t) (auto split: if_splits)

lemma lowerChar_no_space: "matchesLetter c \<Longrightarrow> lowerChar c \<noteq> CHR '' ''"
  using lowerChar_lower [of c] by (auto simp: isLowerAZ_def)

lemma step_spacing:
  assumes "noLeadingSpace (currentText s) \<and> noDoubleSpace (currentText s)"
  shows "noLeadingSpace (currentText (step e s)) \<and> noDoubleSpace (currentText (step e s))"
  using step_text_cases [of e s] assms
  by (auto simp: noDoubleSpace_snoc noLeadingSpace_snoc lowerChar_no_space
        noDoubleSpace_butlast noLeadingSpace_butlast)

lemma run_spacing:
  "noLeadingSpace (currentText s) \<and> noDoubleSpace (currentText s) \<Longrightarrow>
   noLeadingSpace (currentText (run es s)) \<and> noDoubleSpace (currentText (run es s))"
proof (induction es arbitrary: s)
  case Nil
  then show ?case by simp
next
  case (Cons e es)
  from Cons.IH [OF step_spacing [OF Cons.prems]] show ?case by simp
qed

subsection \<open>The sequence mirrors the text\<close>

lemma mirrors_initial: "mirrors initial_state"
  by (simp add: mirrors_def initial_state_def)

lemma lower_no_space: "isLowerAZ c \<Longrightarrow> c \<noteq> CHR '' ''"
  by (auto simp: isLowerAZ_def)

lemma lower_is_letter: "isLowerAZ c \<Longrightarrow> matchesLetter c"
  by (simp add: matchesLetter_def)

lemma mirrors_step:
  assumes "mirrors s"
  shows "mirrors (step e s)"
proof -
  let ?t = "currentText s" and ?q = "typedSequence s"
  let ?ok = "\<lambda>c. isLowerAZ c \<or> c = CHR '' ''"
  let ?f = "\<lambda>c. [upperChar c]" and ?p = "\<lambda>c. c \<noteq> CHR '' ''"
  from assms have t: "list_all ?ok ?t" and q: "?q = map ?f (filter ?p ?t)"
    by (simp_all add: mirrors_def)
  have undo: "list_all ?ok (butlast ?t) \<and>
      (if matchesLetter (last ?t) then butlast ?q else ?q) = map ?f (filter ?p (butlast ?t))"
    if ne: "?t \<noteq> []"
  proof -
    have split: "?t = butlast ?t @ [last ?t]" using ne by simp
    have okl: "?ok (last ?t)" using t ne by (simp add: list_all_iff)
    have all: "list_all ?ok (butlast ?t)"
      using t by (auto simp: list_all_iff dest: in_set_butlastD)
    have "?q = map ?f (filter ?p (butlast ?t @ [last ?t]))" using q split by simp
    then have q': "?q = map ?f (filter ?p (butlast ?t)) @ (if ?p (last ?t) then [?f (last ?t)] else [])"
      by simp
    show ?thesis
    proof (cases "last ?t = CHR '' ''")
      case True
      with q' all show ?thesis by (simp add: space_not_letter)
    next
      case False
      with okl have "isLowerAZ (last ?t)" by simp
      then have "matchesLetter (last ?t)" by (rule lower_is_letter)
      with q' False all show ?thesis by simp
    qed
  qed
  from step_text_cases [of e s] show ?thesis
  proof (elim disjE exE conjE)
    assume "currentText (step e s) = ?t" "typedSequence (step e s) = ?q"
    with t q show ?thesis by (simp add: mirrors_def)
  next
    fix c
    assume "matchesLetter c" "currentText (step e s) = ?t @ [lowerChar c]"
      "typedSequence (step e s) = ?q @ [[upperChar c]]"
    with t q show ?thesis
      by (simp add: mirrors_def lowerChar_lower lowerChar_no_space upperChar_lowerChar_any)
  next
    assume "currentText (step e s) = ?t @ '' ''" "typedSequence (step e s) = ?q"
    with t q show ?thesis by (simp add: mirrors_def)
  next
    assume "?t \<noteq> []" "currentText (step e s) = butlast ?t"
      "typedSequence (step e s) = (if matchesLetter (last ?t) then butlast ?q else ?q)"
    with undo show ?thesis by (simp add: mirrors_def)
  next
    assume "currentText (step e s) = []" "typedSequence (step e s) = []"
    then show ?thesis by (simp add: mirrors_def)
  qed
qed

lemma mirrors_run: "mirrors s \<Longrightarrow> mirrors (run es s)"
  by (induction es arbitrary: s) (simp_all add: mirrors_step)

section \<open>Backspace after a letter\<close>

text \<open>
  Claim C6. From every state, typing a letter (by key, in either case, or by a click on
  the on-screen keyboard), letting any amount of time pass and pressing Backspace gives
  back the \<open>typedSequence\<close> and the \<open>currentText\<close> from before the letter.
\<close>

theorem backspace_undoes_letter:
  assumes "letterOf e \<noteq> None"
  shows "typedSequence (run [e, Advance d, KeyDown ''Backspace''] s) = typedSequence s \<and>
         currentText (run [e, Advance d, KeyDown ''Backspace''] s) = currentText s"
proof -
  from assms obtain l where l: "letterOf e = Some l" by auto
  then obtain c where c: "l = [c]" "matchesLetter c" using letterOf_letter by blast
  let ?s1 = "advance d (step e s)"
  have s1: "typedSequence ?s1 = typedSequence s @ [[upperChar c]]"
      "currentText ?s1 = currentText s @ [lowerChar c]"
    using letter_step [OF l, of s] c
    by (simp_all add: advance_text toUpperCase_def toLowerCase_def)
  have "matchesLetter (lowerChar c)"
    using lowerChar_lower [OF c(2)] by (rule lower_is_letter)
  with s1 show ?thesis
    by (simp add: press_Backspace removeLetter_text)
qed

theorem backspace_undoes_letter_witness:
  "letterOf (KeyDown ''q'') \<noteq> None \<and>
   typedSequence (run [KeyDown ''q'', Advance 7, KeyDown ''Backspace'']
      (run [KeyDown ''a'', KeyDown '' ''] initial_state)) = [''A''] \<and>
   currentText (run [KeyDown ''q'', Advance 7, KeyDown ''Backspace'']
      (run [KeyDown ''a'', KeyDown '' ''] initial_state)) = ''a ''"
proof -
  have h: "letterOf (KeyDown ''q'') \<noteq> None" by code_simp
  have b: "typedSequence (run [KeyDown ''a'', KeyDown '' ''] initial_state) = [''A'']"
      "currentText (run [KeyDown ''a'', KeyDown '' ''] initial_state) = ''a ''"
    by code_simp+
  from backspace_undoes_letter [OF h, of 7 "run [KeyDown ''a'', KeyDown '' ''] initial_state"] h b
  show ?thesis by simp
qed

section \<open>Space\<close>

text \<open>
  Claim C9. \<open>addSpace\<close>, which is what the space key calls, appends one space to
  \<open>currentText\<close> and leaves \<open>typedSequence\<close> alone when the text is not empty and does
  not end with a space; otherwise it changes nothing at all. So a second space in a row
  leaves the text as the first one made it. After any run from the initial state the text
  has no space in front and no two spaces in a row.
\<close>

theorem space_rule:
  "handleKeyPress '' '' s = addSpace s
   \<and> (currentText s \<noteq> [] \<and> last (currentText s) \<noteq> CHR '' '' \<longrightarrow>
        currentText (addSpace s) = currentText s @ '' ''
        \<and> typedSequence (addSpace s) = typedSequence s)
   \<and> (\<not> (currentText s \<noteq> [] \<and> last (currentText s) \<noteq> CHR '' '') \<longrightarrow> addSpace s = s)
   \<and> currentText (addSpace (addSpace s)) = currentText (addSpace s)
   \<and> noLeadingSpace (currentText (run es initial_state))
   \<and> noDoubleSpace (currentText (run es initial_state))"
proof -
  have "noLeadingSpace (currentText initial_state) \<and> noDoubleSpace (currentText initial_state)"
    by (simp add: initial_state_def)
  from run_spacing [OF this, of es] show ?thesis
    by (simp add: press_space addSpace_text) (simp add: addSpace_def)
qed

theorem space_rule_witness:
  "currentText (run [KeyDown ''a'', KeyDown ''b''] initial_state) \<noteq> []
   \<and> last (currentText (run [KeyDown ''a'', KeyDown ''b''] initial_state)) \<noteq> CHR '' ''
   \<and> currentText (addSpace (run [KeyDown ''a'', KeyDown ''b''] initial_state)) = ''ab ''
   \<and> typedSequence (addSpace (run [KeyDown ''a'', KeyDown ''b''] initial_state)) = [''A'', ''B'']
   \<and> \<not> (currentText initial_state \<noteq> [] \<and> last (currentText initial_state) \<noteq> CHR '' '')
   \<and> addSpace initial_state = initial_state
   \<and> currentText (addSpace (addSpace (run [KeyDown ''a'', KeyDown ''b''] initial_state))) = ''ab ''
   \<and> noLeadingSpace (currentText (run [KeyDown '' '', KeyDown ''a'', KeyDown '' '', KeyDown '' ''] initial_state))
   \<and> noDoubleSpace (currentText (run [KeyDown '' '', KeyDown ''a'', KeyDown '' '', KeyDown '' ''] initial_state))"
proof -
  let ?s = "run [KeyDown ''a'', KeyDown ''b''] initial_state"
  have t: "currentText ?s = ''ab''" "typedSequence ?s = [''A'', ''B'']" by code_simp+
  have i: "currentText initial_state = []" by (simp add: initial_state_def)
  from space_rule [of ?s "[KeyDown '' '', KeyDown ''a'', KeyDown '' '', KeyDown '' '']"]
    space_rule [of initial_state "[]"] t i
  show ?thesis by simp
qed

section \<open>The sequence and the text\<close>

text \<open>
  Claim C10. After any run of events from the initial state (letters, spaces, backspaces
  and clears among them), \<open>typedSequence\<close> is the list of the characters of
  \<open>currentText\<close> other than the space, each in upper case, in the same order; so the
  two have the same number of entries.
\<close>

theorem sequence_mirrors_text:
  "typedSequence (run es initial_state) =
     map (\<lambda>c. toUpperCase [c]) (filter (\<lambda>c. c \<noteq> CHR '' '') (currentText (run es initial_state)))
   \<and> length (typedSequence (run es initial_state)) =
     length (filter (\<lambda>c. c \<noteq> CHR '' '') (currentText (run es initial_state)))"
proof -
  have "mirrors (run es initial_state)" using mirrors_initial by (rule mirrors_run)
  then show ?thesis by (simp add: mirrors_def toUpperCase_def)
qed

theorem sequence_mirrors_text_witness:
  "typedSequence (run [KeyDown ''a'', KeyDown '' '', ClickKey ''B'', KeyDown ''c'', KeyDown ''Backspace''] initial_state)
     = [''A'', ''B'']
   \<and> currentText (run [KeyDown ''a'', KeyDown '' '', ClickKey ''B'', KeyDown ''c'', KeyDown ''Backspace''] initial_state)
     = ''a b''"
proof -
  let ?es = "[KeyDown ''a'', KeyDown '' '', ClickKey ''B'', KeyDown ''c'', KeyDown ''Backspace'']"
  have t: "currentText (run ?es initial_state) = ''a b''" by code_simp
  have u: "map (\<lambda>c. toUpperCase [c]) (filter (\<lambda>c. c \<noteq> CHR '' '') ''a b'') = [''A'', ''B'']"
    by code_simp
  from sequence_mirrors_text [of ?es] t u show ?thesis by simp
qed

section \<open>Lemmas on timers\<close>

subsection \<open>Cancelling timers\<close>

lemma clear_both:
  "clearTimeout e (clearTimeout f s) = s\<lparr>timers := withoutHandles f e (timers s)\<rparr>"
  by (cases f; cases e) (auto simp: clearTimeout_def withoutHandles_def intro: filter_cong)

lemma tracked_withoutHandles:
  "tracked s \<Longrightarrow> onlyRedraws (withoutHandles (fadeTimeout s) (exportTimeout s) (timers s))"
  by (auto simp: tracked_def onlyRedraws_def withoutHandles_def list_all_iff)

text \<open>A fade timer can lose its handle: \<open>handleMouseLeave\<close> calls
  \<open>startFadeTimer\<close> without \<open>clearTimeout\<close>, so the timer started by a letter typed
  under the pointer stays pending while \<open>fadeTimeout\<close> moves on to the new one.\<close>

lemma lost_handle:
  "timers (run [MouseEnter, KeyDown ''h'', MouseLeave] initial_state) =
     [\<lparr>tm_id = 0, tm_due = 10, tm_cb = RedrawCallback\<rparr>,
      \<lparr>tm_id = 1, tm_due = 2000, tm_cb = FadeCallback\<rparr>,
      \<lparr>tm_id = 2, tm_due = 2000, tm_cb = FadeCallback\<rparr>]"
  "fadeTimeout (run [MouseEnter, KeyDown ''h'', MouseLeave] initial_state) = Some 2"
  "\<not> tracked (run [MouseEnter, KeyDown ''h'', MouseLeave] initial_state)"
  by code_simp+

lemma withoutHandles_idem:
  "withoutHandles f e (withoutHandles f e ts) = withoutHandles f e ts"
  by (simp add: withoutHandles_def)

lemma clearCanvas_timers:
  "timers (clearCanvas s) = withoutHandles (fadeTimeout s) (exportTimeout s) (timers s)"
  by (simp add: clearCanvas_def Let_def clear_both split: option.splits)

lemma confirmTyping_timers:
  "timers (confirmTyping s) = withoutHandles (fadeTimeout s) (exportTimeout s) (timers s)"
  by (simp add: confirmTyping_def Let_def clear_both)

lemma clearCanvas_idem: "clearCanvas (clearCanvas s) = clearCanvas s"
  by (cases "ctx s"; cases "canvas s")
     (simp_all add: clearCanvas_def Let_def clear_both clearRect_def withoutHandles_idem)

subsection \<open>The fade machine\<close>

lemma viewOf_runCallback: "viewOf (runCallback cb s) = viewRun cb (viewOf s)"
  by (cases cb)
     (simp_all add: viewOf_def fadeCallback_def exportCallback_def redrawCallback_def
        setTimeout_def Let_def pendingFades_def)

lemma viewOf_fold: "viewOf (fold runCallback cbs s) = fold viewRun cbs (viewOf s)"
  by (induction cbs arbitrary: s) (simp_all add: viewOf_runCallback)

lemma fold_viewRun_skip:
  "fold viewRun cbs v = fold viewRun (filter (\<lambda>c. c \<noteq> RedrawCallback) cbs) v"
  by (induction cbs arbitrary: v) simp_all

lemma due_fades:
  "filter (\<lambda>c. c \<noteq> RedrawCallback) (map tm_cb (filter (\<lambda>t. tm_due t \<le> n) ts)) =
   map snd (filter (\<lambda>dc. fst dc \<le> n) (pendingFades ts))"
  by (induction ts) (simp_all add: pendingFades_def)

lemma later_fades:
  "pendingFades (filter (\<lambda>t. \<not> tm_due t \<le> n) ts) =
   filter (\<lambda>dc. \<not> fst dc \<le> n) (pendingFades ts)"
  by (induction ts) (simp_all add: pendingFades_def)

lemma viewOf_tick: "viewOf (tick s) = viewTick (viewOf s)"
proof -
  let ?n = "now s + 1"
  let ?s2 = "s\<lparr>now := ?n, timers := filter (\<lambda>t. \<not> tm_due t \<le> ?n) (timers s)\<rparr>"
  have "viewOf (tick s) = fold viewRun (map tm_cb (filter (\<lambda>t. tm_due t \<le> ?n) (timers s))) (viewOf ?s2)"
    by (simp add: tick_def Let_def viewOf_fold)
  also have "\<dots> = fold viewRun (map snd (filter (\<lambda>dc. fst dc \<le> ?n) (pendingFades (timers s)))) (viewOf ?s2)"
    by (subst fold_viewRun_skip) (simp only: due_fades)
  also have "viewOf ?s2 = (?n, isHovering s, keyboardOpacity s, showExportButtons s,
       filter (\<lambda>dc. \<not> fst dc \<le> ?n) (pendingFades (timers s)))"
    by (simp add: viewOf_def later_fades)
  finally show ?thesis by (simp add: viewOf_def)
qed

lemma onSchedule_tick: "onSchedule t0 v \<Longrightarrow> onSchedule t0 (viewTick v)"
  by (cases v) (auto split: if_splits)

lemma now_tick: "fst (viewTick v) = fst v + 1"
proof -
  have run: "fst (viewRun cb w) = fst w" for cb w
    by (cases "(cb, w)" rule: viewRun.cases) simp_all
  have "fst (fold viewRun cbs w) = fst w" for cbs w
    by (induction cbs arbitrary: w) (simp_all add: run)
  then show ?thesis by (cases v) simp
qed

lemma viewOf_advance:
  "onSchedule t0 (viewOf s) \<Longrightarrow>
   onSchedule t0 (viewOf (advance d s)) \<and> now (advance d s) = now s + d"
proof (induction d arbitrary: s)
  case 0
  then show ?case by simp
next
  case (Suc d)
  have "onSchedule t0 (viewOf (tick s))"
    using Suc.prems by (simp add: viewOf_tick onSchedule_tick)
  moreover have "now (tick s) = now s + 1"
  proof -
    have "now (tick s) = fst (viewOf (tick s))" by (simp add: viewOf_def)
    also have "\<dots> = fst (viewOf s) + 1" by (simp only: viewOf_tick now_tick)
    finally show ?thesis by (simp add: viewOf_def)
  qed
  ultimately show ?case using Suc.IH [of "tick s"] by simp
qed

lemma idle_tick: "viewTick (n, h, opa, ex, []) = (n + 1, h, opa, ex, [])"
  by simp

lemma idle_advance:
  assumes "pendingFades (timers s) = []"
  shows "keyboardOpacity (advance d s) = keyboardOpacity s \<and>
         showExportButtons (advance d s) = showExportButtons s \<and>
         pendingFades (timers (advance d s)) = []"
  using assms
proof (induction d arbitrary: s)
  case 0
  then show ?case by simp
next
  case (Suc d)
  have "viewOf (tick s) = (now s + 1, isHovering s, keyboardOpacity s, showExportButtons s, [])"
    using Suc.prems by (simp add: viewOf_tick) (simp add: viewOf_def)
  then have "keyboardOpacity (tick s) = keyboardOpacity s \<and>
      showExportButtons (tick s) = showExportButtons s \<and> pendingFades (timers (tick s)) = []"
    by (simp add: viewOf_def)
  with Suc.IH [of "tick s"] show ?case by simp
qed

lemma onlyRedraws_pending: "onlyRedraws ts \<Longrightarrow> pendingFades ts = []"
  by (simp add: onlyRedraws_def pendingFades_def list_all_iff)

subsection \<open>Inputs that restart the countdown\<close>

lemma pendingFades_append: "pendingFades (xs @ ys) = pendingFades xs @ pendingFades ys"
  by (simp add: pendingFades_def)

lemma addLetter_view:
  assumes "tracked s"
  shows "viewOf (addLetter letter s) =
           (now s, isHovering s, 1, False, [(now s + 2000, FadeCallback)])"
  using tracked_withoutHandles [OF assms, THEN onlyRedraws_pending]
  by (simp add: addLetter_def Let_def clear_both setTimeout_def startFadeTimer_def
        viewOf_def pendingFades_append)
     (simp add: pendingFades_def)

lemma addSpace_view:
  assumes "tracked s" "currentText s \<noteq> []" "last (currentText s) \<noteq> CHR '' ''"
  shows "viewOf (addSpace s) =
           (now s, isHovering s, 1, False, [(now s + 2000, FadeCallback)])"
  using tracked_withoutHandles [OF assms(1), THEN onlyRedraws_pending] assms(2,3)
  by (simp add: addSpace_def Let_def clear_both setTimeout_def startFadeTimer_def
        viewOf_def pendingFades_append)
     (simp add: pendingFades_def)

lemma removeLetter_view:
  assumes "tracked s" "2 \<le> length (currentText s)"
  shows "viewOf (removeLetter s) =
           (now s, isHovering s, 1, False, [(now s + 2000, FadeCallback)])"
proof -
  from assms(2) have ne: "currentText s \<noteq> []" "butlast (currentText s) \<noteq> []"
    by (cases "currentText s"; cases "tl (currentText s)"; auto)+
  with tracked_withoutHandles [OF assms(1), THEN onlyRedraws_pending] show ?thesis
    by (simp add: removeLetter_def Let_def clear_both setTimeout_def startFadeTimer_def
          viewOf_def pendingFades_append)
       (simp add: pendingFades_def)
qed

lemma restartsFade_view:
  assumes "tracked s" "restartsFade e s"
  shows "viewOf (step e s) = (now s, isHovering s, 1, False, [(now s + 2000, FadeCallback)])"
proof (cases e)
  case (KeyDown k)
  with assms(2) consider
      (letter) "isLetterKey k"
    | (space) "\<not> isLetterKey k" "toUpperCase k = '' ''" "currentText s \<noteq> []"
        "last (currentText s) \<noteq> CHR '' ''"
    | (bksp) "\<not> isLetterKey k" "toUpperCase k = ''BACKSPACE''" "2 \<le> length (currentText s)"
    by auto
  then show ?thesis
  proof cases
    case letter
    with KeyDown show ?thesis
      by (simp add: handleKeyPress_def Let_def matchesCapital_toUpperCase
            addLetter_view [OF assms(1)])
  next
    case space
    with KeyDown show ?thesis
      by (simp add: handleKeyPress_other addSpace_view [OF assms(1)])
  next
    case bksp
    with KeyDown show ?thesis
      by (simp add: handleKeyPress_other removeLetter_view [OF assms(1)])
  qed
next
  case (ClickKey letter)
  with assms(2) show ?thesis by (simp add: addLetter_view [OF assms(1)])
qed (use assms(2) in simp_all)

subsection \<open>A backspace that empties the text\<close>

lemma removeLetter_last_view:
  assumes "tracked s" "length (currentText s) = 1"
  shows "viewOf (removeLetter s) = (now s, isHovering s, 1, False, [])"
proof -
  from assms(2) have ne: "currentText s \<noteq> []" "butlast (currentText s) = []"
    by (cases "currentText s"; simp)+
  with tracked_withoutHandles [OF assms(1), THEN onlyRedraws_pending] show ?thesis
    by (simp add: removeLetter_def Let_def clear_both viewOf_def)
qed

subsection \<open>A page with a countdown pending\<close>

text \<open>Ten milliseconds after the letter a was typed on the fresh page the deferred
  redraw has run, and the fade timer of the letter is pending under its handle.\<close>

lemma typed_a_tracked: "tracked (advance 10 (handleKeyPress ''a'' initial_state))"
  by code_simp

lemma typed_a_hover: "\<not> isHovering (advance 10 (handleKeyPress ''a'' initial_state))"
  by code_simp

lemma typed_a_text: "currentText (advance 10 (handleKeyPress ''a'' initial_state)) = ''a''"
  by code_simp

lemma typed_a_pending:
  "timers (advance 10 (handleKeyPress ''a'' initial_state)) =
     [\<lparr>tm_id = 1, tm_due = 2000, tm_cb = FadeCallback\<rparr>]"
  by code_simp

lemma typed_a_handle: "fadeTimeout (advance 10 (handleKeyPress ''a'' initial_state)) = Some 1"
  by code_simp

lemma typed_a_clock: "now (advance 10 (handleKeyPress ''a'' initial_state)) = 10"
  by code_simp

lemma letter_b_restarts:
  "restartsFade (KeyDown ''b'') (advance 10 (handleKeyPress ''a'' initial_state))"
  by (simp add: matchesLetter_def isLowerAZ_def)

section \<open>The fade schedule\<close>

text \<open>
  Claim C5, amended. Take a state that is not hovered and in which no fade or reveal
  timer has lost its handle, and let nothing happen after the input. After an input
  that restarts the countdown (a letter, a space that is accepted, or a backspace that
  leaves some text), \<open>d\<close> milliseconds later the keyboard is fully visible with the
  export buttons hidden while \<open>d < 2000\<close>, has opacity 0.3 with the buttons hidden while
  \<open>2000 \<le> d < 3000\<close>, and has opacity 0.3 with the buttons shown from \<open>d = 3000\<close> on.
  After a backspace that empties the text, in such a state, no countdown starts: the
  keyboard is fully visible with the export buttons hidden at every \<open>d\<close>.
\<close>

theorem fade_schedule:
  assumes "tracked s" and "\<not> isHovering s"
  shows "(restartsFade e s \<longrightarrow>
            (d < 2000 \<longrightarrow> keyboardOpacity (advance d (step e s)) = 1
                        \<and> \<not> showExportButtons (advance d (step e s)))
          \<and> (2000 \<le> d \<and> d < 3000 \<longrightarrow> keyboardOpacity (advance d (step e s)) = 3 / 10
                        \<and> \<not> showExportButtons (advance d (step e s)))
          \<and> (3000 \<le> d \<longrightarrow> keyboardOpacity (advance d (step e s)) = 3 / 10
                        \<and> showExportButtons (advance d (step e s))))
       \<and> (toUpperCase k = ''BACKSPACE'' \<and> length (currentText s) = 1 \<longrightarrow>
            keyboardOpacity (advance d (step (KeyDown k) s)) = 1
            \<and> \<not> showExportButtons (advance d (step (KeyDown k) s)))"
proof -
  have restart: "(d < 2000 \<longrightarrow> keyboardOpacity (advance d (step e s)) = 1
                        \<and> \<not> showExportButtons (advance d (step e s)))
          \<and> (2000 \<le> d \<and> d < 3000 \<longrightarrow> keyboardOpacity (advance d (step e s)) = 3 / 10
                        \<and> \<not> showExportButtons (advance d (step e s)))
          \<and> (3000 \<le> d \<longrightarrow> keyboardOpacity (advance d (step e s)) = 3 / 10
                        \<and> showExportButtons (advance d (step e s)))"
    if r: "restartsFade e s"
  proof -
    let ?s1 = "step e s"
    have v: "viewOf ?s1 = (now s, False, 1, False, [(now s + 2000, FadeCallback)])"
      using restartsFade_view [OF assms(1) r] assms(2) by simp
    then have "onSchedule (now s) (viewOf ?s1)" by simp
    moreover have "now ?s1 = now s" using v by (simp add: viewOf_def)
    ultimately have "onSchedule (now s) (viewOf (advance d ?s1))"
        and "now (advance d ?s1) = now s + d"
      using viewOf_advance [of "now s" ?s1 d] by simp_all
    then show ?thesis by (auto simp: viewOf_def split: if_splits)
  qed
  have empties: "keyboardOpacity (advance d (step (KeyDown k) s)) = 1
            \<and> \<not> showExportButtons (advance d (step (KeyDown k) s))"
    if b: "toUpperCase k = ''BACKSPACE'' \<and> length (currentText s) = 1"
  proof -
    from b have st: "step (KeyDown k) s = removeLetter s"
      by (simp add: handleKeyPress_other)
    have v: "viewOf (removeLetter s) = (now s, isHovering s, 1, False, [])"
      using removeLetter_last_view [OF assms(1)] b by simp
    then have idle: "pendingFades (timers (removeLetter s)) = []"
      and vis: "keyboardOpacity (removeLetter s) = 1" "\<not> showExportButtons (removeLetter s)"
      by (simp_all add: viewOf_def)
    from idle_advance [OF idle, of d] vis
    have "keyboardOpacity (advance d (removeLetter s)) = 1
        \<and> \<not> showExportButtons (advance d (removeLetter s))" by simp
    then show ?thesis by (simp add: st del: step.simps)
  qed
  from restart empties show ?thesis by blast
qed

theorem fade_schedule_witness:
  "tracked (advance 10 (handleKeyPress ''a'' initial_state))
   \<and> \<not> isHovering (advance 10 (handleKeyPress ''a'' initial_state))
   \<and> timers (advance 10 (handleKeyPress ''a'' initial_state)) =
       [\<lparr>tm_id = 1, tm_due = 2000, tm_cb = FadeCallback\<rparr>]
   \<and> now (advance 10 (handleKeyPress ''a'' initial_state)) = 10
   \<and> restartsFade (KeyDown ''b'') (advance 10 (handleKeyPress ''a'' initial_state))
   \<and> keyboardOpacity (advance 1999 (step (KeyDown ''b'')
        (advance 10 (handleKeyPress ''a'' initial_state)))) = 1
   \<and> \<not> showExportButtons (advance 1999 (step (KeyDown ''b'')
        (advance 10 (handleKeyPress ''a'' initial_state))))
   \<and> keyboardOpacity (advance 2000 (step (KeyDown ''b'')
        (advance 10 (handleKeyPress ''a'' initial_state)))) = 3 / 10
   \<and> \<not> showExportButtons (advance 2999 (step (KeyDown ''b'')
        (advance 10 (handleKeyPress ''a'' initial_state))))
   \<and> keyboardOpacity (advance 3000 (step (KeyDown ''b'')
        (advance 10 (handleKeyPress ''a'' initial_state)))) = 3 / 10
   \<and> showExportButtons (advance 3000 (step (KeyDown ''b'')
        (advance 10 (handleKeyPress ''a'' initial_state))))
   \<and> toUpperCase ''Backspace'' = ''BACKSPACE''
   \<and> length (currentText (advance 10 (handleKeyPress ''a'' initial_state))) = 1
   \<and> keyboardOpacity (advance 2500 (step (KeyDown ''Backspace'')
        (advance 10 (handleKeyPress ''a'' initial_state)))) = 1
   \<and> \<not> showExportButtons (advance 2500 (step (KeyDown ''Backspace'')
        (advance 10 (handleKeyPress ''a'' initial_state))))"
proof -
  let ?s = "advance 10 (handleKeyPress ''a'' initial_state)"
  note sched = fade_schedule [OF typed_a_tracked typed_a_hover]
  have one: "length (currentText ?s) = 1" by (simp only: typed_a_text) simp
  have a: "keyboardOpacity (advance 1999 (step (KeyDown ''b'') ?s)) = 1
      \<and> \<not> showExportButtons (advance 1999 (step (KeyDown ''b'') ?s))"
    using sched [where e = "KeyDown ''b''" and d = 1999 and k = "''Backspace''"]
      letter_b_restarts by (simp del: step.simps restartsFade.simps)
  have b: "keyboardOpacity (advance 2000 (step (KeyDown ''b'') ?s)) = 3 / 10"
    using sched [where e = "KeyDown ''b''" and d = 2000 and k = "''Backspace''"]
      letter_b_restarts by (simp del: step.simps restartsFade.simps)
  have c: "\<not> showExportButtons (advance 2999 (step (KeyDown ''b'') ?s))"
    using sched [where e = "KeyDown ''b''" and d = 2999 and k = "''Backspace''"]
      letter_b_restarts by (simp del: step.simps restartsFade.simps)
  have d: "keyboardOpacity (advance 3000 (step (KeyDown ''b'') ?s)) = 3 / 10
      \<and> showExportButtons (advance 3000 (step (KeyDown ''b'') ?s))"
    using sched [where e = "KeyDown ''b''" and d = 3000 and k = "''Backspace''"]
      letter_b_restarts by (simp del: step.simps restartsFade.simps)
  have e: "keyboardOpacity (advance 2500 (step (KeyDown ''Backspace'') ?s)) = 1
      \<and> \<not> showExportButtons (advance 2500 (step (KeyDown ''Backspace'') ?s))"
    using sched [where e = "KeyDown ''b''" and d = 2500 and k = "''Backspace''"]
      upper_BACKSPACE one by (simp del: step.simps restartsFade.simps)
  from a b c d e one upper_BACKSPACE typed_a_tracked typed_a_hover typed_a_pending
    typed_a_clock letter_b_restarts
  show ?thesis by (simp only: simp_thms)
qed

text \<open>
  As stated, for every mutating input, the claim fails: a backspace that empties the
  text starts no timer, so the keyboard is still fully visible 2500 ms later.
\<close>

lemma erased_a_text:
  "currentText (handleKeyPress ''Backspace''
     (advance 10 (handleKeyPress ''a'' initial_state))) = []"
  by code_simp

lemma erased_a_pending:
  "pendingFades (timers (handleKeyPress ''Backspace''
     (advance 10 (handleKeyPress ''a'' initial_state)))) = []"
  by code_simp

lemma erased_a_opacity:
  "keyboardOpacity (handleKeyPress ''Backspace''
     (advance 10 (handleKeyPress ''a'' initial_state))) = 1"
  by code_simp

theorem fade_schedule_counterexample:
  "tracked (advance 10 (handleKeyPress ''a'' initial_state))
   \<and> \<not> isHovering (advance 10 (handleKeyPress ''a'' initial_state))
   \<and> currentText (advance 10 (handleKeyPress ''a'' initial_state)) = ''a''
   \<and> currentText (handleKeyPress ''Backspace''
        (advance 10 (handleKeyPress ''a'' initial_state))) = []
   \<and> keyboardOpacity (advance 2500 (handleKeyPress ''Backspace''
        (advance 10 (handleKeyPress ''a'' initial_state)))) = 1
   \<and> keyboardOpacity (advance 2500 (handleKeyPress ''Backspace''
        (advance 10 (handleKeyPress ''a'' initial_state)))) \<noteq> 3 / 10"
  using idle_advance [OF erased_a_pending, of 2500] erased_a_opacity typed_a_tracked
    typed_a_hover typed_a_text erased_a_text
  by simp

section \<open>Clear\<close>

text \<open>
  Claim C7, amended. \<open>clearCanvas\<close> is idempotent. From every state it leaves
  \<open>typedSequence\<close> and \<open>currentText\<close> empty, the opacity 1 and the export buttons
  hidden, which are their initial values, and it cancels the timers filed under the
  handles \<open>fadeTimeout\<close> and \<open>exportTimeout\<close>, no other. When no fade or reveal timer
  has lost its handle, only redraw timers are pending afterwards.
\<close>

theorem clear_resets:
  "clearCanvas (clearCanvas s) = clearCanvas s
   \<and> typedSequence (clearCanvas s) = [] \<and> typedSequence initial_state = []
   \<and> currentText (clearCanvas s) = [] \<and> currentText initial_state = []
   \<and> keyboardOpacity (clearCanvas s) = 1 \<and> keyboardOpacity initial_state = 1
   \<and> \<not> showExportButtons (clearCanvas s) \<and> \<not> showExportButtons initial_state
   \<and> timers (clearCanvas s) = withoutHandles (fadeTimeout s) (exportTimeout s) (timers s)
   \<and> (tracked s \<longrightarrow> onlyRedraws (timers (clearCanvas s)))"
proof -
  have "keyboardOpacity (clearCanvas s) = 1 \<and> \<not> showExportButtons (clearCanvas s)"
    by (simp add: clearCanvas_def Let_def clear_both split: option.splits)
  then show ?thesis
    by (simp add: clearCanvas_idem clearCanvas_text clearCanvas_timers
          tracked_withoutHandles initial_state_def)
qed

lemma typed_ab: "tracked (run [KeyDown ''a'', KeyDown ''b''] initial_state)"
  by code_simp

theorem clear_resets_witness:
  "tracked (run [KeyDown ''a'', KeyDown ''b''] initial_state)
   \<and> clearCanvas (clearCanvas (run [KeyDown ''a'', KeyDown ''b''] initial_state))
       = clearCanvas (run [KeyDown ''a'', KeyDown ''b''] initial_state)
   \<and> typedSequence (clearCanvas (run [KeyDown ''a'', KeyDown ''b''] initial_state)) = []
   \<and> currentText (clearCanvas (run [KeyDown ''a'', KeyDown ''b''] initial_state)) = []
   \<and> keyboardOpacity (clearCanvas (run [KeyDown ''a'', KeyDown ''b''] initial_state)) = 1
   \<and> \<not> showExportButtons (clearCanvas (run [KeyDown ''a'', KeyDown ''b''] initial_state))
   \<and> onlyRedraws (timers (clearCanvas (run [KeyDown ''a'', KeyDown ''b''] initial_state)))"
  using clear_resets [of "run [KeyDown ''a'', KeyDown ''b''] initial_state"] typed_ab
  by blast

text \<open>
  As stated, with all pending timers cancelled, the claim fails. The redraw that
  \<open>addLetter\<close> defers by 10 ms has no handle, and the fade timer started under the
  pointer lost its handle when the pointer left; both are still pending after the clear.
\<close>

theorem clear_resets_counterexample:
  "timers (clearCanvas (handleMouseLeave (handleKeyPress ''a'' (handleMouseEnter initial_state))))
     = [\<lparr>tm_id = 0, tm_due = 10, tm_cb = RedrawCallback\<rparr>,
        \<lparr>tm_id = 1, tm_due = 2000, tm_cb = FadeCallback\<rparr>]
   \<and> timers (clearCanvas (handleKeyPress ''a'' initial_state))
     = [\<lparr>tm_id = 0, tm_due = 10, tm_cb = RedrawCallback\<rparr>]"
  by code_simp

section \<open>Confirm\<close>

text \<open>
  Claim C8, amended. The Enter key calls \<open>confirmTyping\<close>. From every state, however
  much time has passed, it leaves \<open>typedSequence\<close> and \<open>currentText\<close> as they are,
  sets the opacity to 0.1 and shows the export buttons, and it cancels the timers filed
  under the handles \<open>fadeTimeout\<close> and \<open>exportTimeout\<close>, no other. When no fade or
  reveal timer has lost its handle, only redraw timers are pending afterwards, and the
  opacity and the buttons stay as they are while time passes.
\<close>

theorem confirm_reveals:
  "handleKeyPress ''Enter'' s = confirmTyping s
   \<and> typedSequence (confirmTyping (advance d s)) = typedSequence s
   \<and> currentText (confirmTyping (advance d s)) = currentText s
   \<and> keyboardOpacity (confirmTyping (advance d s)) = 1 / 10
   \<and> showExportButtons (confirmTyping (advance d s))
   \<and> timers (confirmTyping s) = withoutHandles (fadeTimeout s) (exportTimeout s) (timers s)
   \<and> (tracked s \<longrightarrow> onlyRedraws (timers (confirmTyping s))
         \<and> keyboardOpacity (advance d (confirmTyping s)) = 1 / 10
         \<and> showExportButtons (advance d (confirmTyping s)))"
proof -
  have now: "keyboardOpacity (confirmTyping t) = 1 / 10 \<and> showExportButtons (confirmTyping t)"
    for t by (simp add: confirmTyping_def Let_def clear_both)
  have later: "keyboardOpacity (advance d (confirmTyping s)) = 1 / 10
      \<and> showExportButtons (advance d (confirmTyping s))" if "tracked s"
  proof -
    have "pendingFades (timers (confirmTyping s)) = []"
      using tracked_withoutHandles [OF that]
      by (simp add: confirmTyping_timers onlyRedraws_pending)
    from idle_advance [OF this, of d] now [of s] show ?thesis by simp
  qed
  show ?thesis
    using now [of "advance d s"] later
    by (simp add: press_Enter confirmTyping_text advance_text confirmTyping_timers
          tracked_withoutHandles)
qed

lemma typed_hi: "tracked (run [KeyDown ''h'', KeyDown ''i''] initial_state)"
  by code_simp

lemma typed_hi_text:
  "typedSequence (run [KeyDown ''h'', KeyDown ''i''] initial_state) = [''H'', ''I'']"
  "currentText (run [KeyDown ''h'', KeyDown ''i''] initial_state) = ''hi''"
  by code_simp+

theorem confirm_reveals_witness:
  "tracked (run [KeyDown ''h'', KeyDown ''i''] initial_state)
   \<and> typedSequence (confirmTyping (advance 700 (run [KeyDown ''h'', KeyDown ''i''] initial_state)))
       = [''H'', ''I'']
   \<and> currentText (confirmTyping (advance 700 (run [KeyDown ''h'', KeyDown ''i''] initial_state)))
       = ''hi''
   \<and> keyboardOpacity (confirmTyping (advance 700 (run [KeyDown ''h'', KeyDown ''i''] initial_state)))
       = 1 / 10
   \<and> showExportButtons (confirmTyping (advance 700 (run [KeyDown ''h'', KeyDown ''i''] initial_state)))
   \<and> onlyRedraws (timers (confirmTyping (run [KeyDown ''h'', KeyDown ''i''] initial_state)))
   \<and> keyboardOpacity (advance 700 (confirmTyping (run [KeyDown ''h'', KeyDown ''i''] initial_state)))
       = 1 / 10
   \<and> showExportButtons (advance 700 (confirmTyping (run [KeyDown ''h'', KeyDown ''i''] initial_state)))"
proof -
  let ?s = "run [KeyDown ''h'', KeyDown ''i''] initial_state"
  from confirm_reveals [of ?s 700] typed_hi
  have "typedSequence (confirmTyping (advance 700 ?s)) = typedSequence ?s
      \<and> currentText (confirmTyping (advance 700 ?s)) = currentText ?s
      \<and> keyboardOpacity (confirmTyping (advance 700 ?s)) = 1 / 10
      \<and> showExportButtons (confirmTyping (advance 700 ?s))
      \<and> onlyRedraws (timers (confirmTyping ?s))
      \<and> keyboardOpacity (advance 700 (confirmTyping ?s)) = 1 / 10
      \<and> showExportButtons (advance 700 (confirmTyping ?s))"
    by blast
  with typed_hi typed_hi_text show ?thesis by (simp only: simp_thms)
qed

text \<open>
  As stated, with all pending timers cancelled, the claim fails in the same two ways:
  after Enter the deferred redraw and the fade timer that lost its handle are pending.
\<close>

theorem confirm_reveals_counterexample:
  "timers (handleKeyPress ''Enter''
      (handleMouseLeave (handleKeyPress ''h'' (handleMouseEnter initial_state))))
     = [\<lparr>tm_id = 0, tm_due = 10, tm_cb = RedrawCallback\<rparr>,
        \<lparr>tm_id = 1, tm_due = 2000, tm_cb = FadeCallback\<rparr>]
   \<and> timers (handleKeyPress ''Enter'' (handleKeyPress ''h'' initial_state))
     = [\<lparr>tm_id = 0, tm_due = 10, tm_cb = RedrawCallback\<rparr>]"
  by code_simp

section \<open>Lemmas on the path loops and the exported file\<close>

lemma pairLines_drop:
  assumes "i + 1 < length ts"
  shows "pairLines kp (drop i ts) =
           (case (kp (ts ! i), kp (ts ! (i + 1))) of
              (Some p, Some q) \<Rightarrow> [LineTo (kp_x q) (kp_y q)]
            | _ \<Rightarrow> [])
           @ pairLines kp (drop (i + 1) ts)"
proof -
  from assms have "drop i ts = ts ! i # drop (i + 1) ts"
    by (simp add: Cons_nth_drop_Suc)
  moreover from assms have "drop (i + 1) ts = ts ! (i + 1) # drop (i + 2) ts"
    by (simp add: Cons_nth_drop_Suc)
  ultimately show ?thesis by simp
qed

lemma pairLines_short: "\<not> i + 1 < length ts \<Longrightarrow> pairLines kp (drop i ts) = []"
proof -
  assume "\<not> i + 1 < length ts"
  then have "length (drop i ts) \<le> 1" by simp
  then show ?thesis
    by (cases "drop i ts"; cases "tl (drop i ts)") auto
qed

lemma svgPathLoop_later:
  "0 < i \<Longrightarrow> svgPathLoop ts kp i pathData = pathData @ pairLines kp (drop i ts)"
proof (induction ts kp i pathData rule: svgPathLoop.induct)
  case (1 ts kp i pathData)
  show ?case
  proof (cases "i < length ts - 1")
    case False
    then have "\<not> i + 1 < length ts" by simp
    then show ?thesis using False
      by (subst svgPathLoop.simps) (simp add: pairLines_short)
  next
    case True
    then have lt: "i + 1 < length ts" by simp
    show ?thesis
    proof (cases "kp (ts ! i)")
      case None
      with 1 True lt show ?thesis
        by (subst svgPathLoop.simps) (simp add: pairLines_drop [OF lt])
    next
      case (Some p)
      show ?thesis
      proof (cases "kp (ts ! (i + 1))")
        case None
        with 1 True lt Some show ?thesis
          by (subst svgPathLoop.simps) (simp add: pairLines_drop [OF lt])
      next
        case (Some q)
        with 1 True lt \<open>kp (ts ! i) = Some p\<close> show ?thesis
          by (subst svgPathLoop.simps) (simp add: pairLines_drop [OF lt])
      qed
    qed
  qed
qed

lemma redrawLoop_later:
  "0 < i \<Longrightarrow> redrawLoop ts kp i c = c\<lparr>cx_path := cx_path c @ pairLines kp (drop i ts)\<rparr>"
proof (induction ts kp i c rule: redrawLoop.induct)
  case (1 ts kp i c)
  show ?case
  proof (cases "i < length ts - 1")
    case False
    then have "\<not> i + 1 < length ts" by simp
    then show ?thesis using False
      by (subst redrawLoop.simps) (simp add: pairLines_short)
  next
    case True
    then have lt: "i + 1 < length ts" by simp
    show ?thesis
    proof (cases "kp (ts ! i)")
      case None
      with 1 True lt show ?thesis
        by (subst redrawLoop.simps) (simp add: pairLines_drop [OF lt])
    next
      case (Some p)
      show ?thesis
      proof (cases "kp (ts ! (i + 1))")
        case None
        with 1 True lt Some show ?thesis
          by (subst redrawLoop.simps) (simp add: pairLines_drop [OF lt])
      next
        case (Some q)
        with 1 True lt \<open>kp (ts ! i) = Some p\<close> show ?thesis
          by (subst redrawLoop.simps) (simp add: pairLines_drop [OF lt] lineTo_def)
      qed
    qed
  qed
qed

lemma two_letters: "2 \<le> length ts \<Longrightarrow> \<exists>a b rest. ts = a # b # rest"
  by (cases ts; cases "tl ts") auto

lemma svgPathLoop_start:
  assumes "2 \<le> length ts"
  shows "svgPathLoop ts kp 0 [] =
           (if firstPairResolved kp ts then moveToFirst kp ts else []) @ pairLines kp ts"
proof -
  from assms obtain a b rest where ts: "ts = a # b # rest" using two_letters by blast
  show ?thesis
    by (subst svgPathLoop.simps)
       (auto simp: ts svgPathLoop_later split: option.splits)
qed

lemma redrawLoop_start:
  assumes "2 \<le> length ts"
  shows "redrawLoop ts kp 0 c =
           c\<lparr>cx_path := cx_path c @ (if firstPairResolved kp ts then moveToFirst kp ts else [])
                                    @ pairLines kp ts\<rparr>"
proof -
  from assms obtain a b rest where ts: "ts = a # b # rest" using two_letters by blast
  show ?thesis
    by (subst redrawLoop.simps)
       (auto simp: ts redrawLoop_later lineTo_def moveTo_def split: option.splits)
qed

lemma isLineTo_pairLines: "filter isLineTo (pairLines kp ts) = pairLines kp ts"
  by (induction kp ts rule: pairLines.induct) (auto split: option.splits)

lemma isLineTo_moveToFirst: "filter isLineTo (moveToFirst kp ts) = []"
  by (cases ts) (auto split: option.splits)

lemma length_pairLines:
  "\<forall>l \<in> set ts. kp l \<noteq> None \<Longrightarrow> length (pairLines kp ts) = length ts - 1"
  by (induction kp ts rule: pairLines.induct) auto

lemma map_filter_app:
  "List.map_filter f (xs @ ys) = List.map_filter f xs @ List.map_filter f ys"
  by (simp add: List.map_filter_def)

lemma fold_svgDot:
  "fold (svgDot (keyPositions s) (lines (settings s))) ts svg =
     svg @ concat (map (circleFor s) ts)"
  by (induction ts arbitrary: svg) (auto simp: svgDot_def circleFor_def split: option.splits)

lemma circles_only: "filter isCircle (concat (map (circleFor s) ts)) = concat (map (circleFor s) ts)"
  by (induction ts) (auto simp: circleFor_def split: option.splits)

lemma no_paths_in_circles: "List.map_filter pathOf (concat (map (circleFor s) ts)) = []"
  by (induction ts)
     (auto simp: circleFor_def List.map_filter_simps map_filter_app split: option.splits)

lemma circles_resolved:
  "\<forall>l \<in> set ts. keyPositions s l \<noteq> None \<Longrightarrow>
   length (concat (map (circleFor s) ts)) = length ts \<and>
   map radiusOf (concat (map (circleFor s) ts)) =
     replicate (length ts) (line_dotSize (lines (settings s)))"
  by (induction ts) (auto simp: circleFor_def)

lemma exportAsSVG_short: "length (typedSequence s) < 2 \<Longrightarrow> exportAsSVG s = s"
  by (simp add: exportAsSVG_def)

lemma exportAsSVG_file:
  assumes "2 \<le> length (typedSequence s)"
  shows "length (downloads (exportAsSVG s)) = length (downloads s) + 1"
    and "svgPaths (exportedSvg s) =
           [(if firstPairResolved (keyPositions s) (typedSequence s)
             then moveToFirst (keyPositions s) (typedSequence s) else [])
            @ pairLines (keyPositions s) (typedSequence s)]"
    and "svgCircles (exportedSvg s) = concat (map (circleFor s) (typedSequence s))"
  using assms
  by (simp_all add: exportAsSVG_def exportedSvg_def Let_def svgPaths_def svgCircles_def
        fold_svgDot svgPathLoop_start circles_only no_paths_in_circles
        List.map_filter_simps map_filter_app)

lemma redrawLines_paths:
  assumes "ctx s \<noteq> None" "canvas s \<noteq> None" "2 \<le> length (typedSequence s)"
  shows "paintedPaths (redrawLines s) =
           [(if firstPairResolved (keyPositions s) (typedSequence s)
             then moveToFirst (keyPositions s) (typedSequence s) else [])
            @ pairLines (keyPositions s) (typedSequence s)]"
  using assms
  by (auto simp: redrawLines_def Let_def paintedPaths_def redrawLoop_start clearRect_def
        stroke_def)

section \<open>Vector export\<close>

text \<open>
  Claim C4. With fewer than two letters in \<open>typedSequence\<close>, \<open>exportAsSVG\<close> changes
  nothing and hands no file to the browser. With \<open>n \<ge> 2\<close> letters whose positions are
  all known it hands over one file, whose path data holds exactly \<open>n - 1\<close> line-to
  commands and which holds exactly \<open>n\<close> circles, one per typed letter at the position of
  the letter, each of radius \<open>dotSize\<close>.
\<close>

theorem svg_export_counts:
  "(length (typedSequence s) < 2 \<longrightarrow> exportAsSVG s = s)
   \<and> (2 \<le> length (typedSequence s) \<and> (\<forall>l \<in> set (typedSequence s). keyPositions s l \<noteq> None) \<longrightarrow>
        length (downloads (exportAsSVG s)) = length (downloads s) + 1
        \<and> length (filter isLineTo (concat (svgPaths (exportedSvg s)))) = length (typedSequence s) - 1
        \<and> svgCircles (exportedSvg s) = concat (map (circleFor s) (typedSequence s))
        \<and> length (svgCircles (exportedSvg s)) = length (typedSequence s)
        \<and> map radiusOf (svgCircles (exportedSvg s)) =
            replicate (length (typedSequence s)) (line_dotSize (lines (settings s))))"
proof (intro conjI impI)
  assume "length (typedSequence s) < 2"
  then show "exportAsSVG s = s" by (rule exportAsSVG_short)
next
  assume h: "2 \<le> length (typedSequence s) \<and> (\<forall>l \<in> set (typedSequence s). keyPositions s l \<noteq> None)"
  then have n: "2 \<le> length (typedSequence s)"
    and r: "\<forall>l \<in> set (typedSequence s). keyPositions s l \<noteq> None" by simp_all
  show "length (downloads (exportAsSVG s)) = length (downloads s) + 1"
    using exportAsSVG_file(1) [OF n] .
  show "length (filter isLineTo (concat (svgPaths (exportedSvg s)))) = length (typedSequence s) - 1"
    using length_pairLines [OF r]
    by (simp add: exportAsSVG_file(2) [OF n] isLineTo_pairLines isLineTo_moveToFirst)
  show "svgCircles (exportedSvg s) = concat (map (circleFor s) (typedSequence s))"
    using exportAsSVG_file(3) [OF n] .
  show "length (svgCircles (exportedSvg s)) = length (typedSequence s)"
    using circles_resolved [OF r] by (simp add: exportAsSVG_file(3) [OF n])
  show "map radiusOf (svgCircles (exportedSvg s)) =
      replicate (length (typedSequence s)) (line_dotSize (lines (settings s)))"
    using circles_resolved [OF r] by (simp add: exportAsSVG_file(3) [OF n])
qed

lemma typedHIH_fields:
  "typedSequence typedHIH = [''H'', ''I'', ''H'']"
  "keyPositions typedHIH = [''H'' \<mapsto> \<lparr>kp_x = 6, kp_y = 2\<rparr>, ''I'' \<mapsto> \<lparr>kp_x = 8, kp_y = 1\<rparr>]"
  "downloads typedHIH = []"
  "line_dotSize (lines (settings typedHIH)) = 5"
  "ctx typedHIH \<noteq> None" "canvas typedHIH \<noteq> None"
  by (simp_all add: typedHIH_def initial_state_def default_settings_def)

theorem svg_export_counts_witness:
  "2 \<le> length (typedSequence typedHIH)
   \<and> list_all (\<lambda>l. keyPositions typedHIH l \<noteq> None) (typedSequence typedHIH)
   \<and> length (downloads (exportAsSVG typedHIH)) = 1
   \<and> length (filter isLineTo (concat (svgPaths (exportedSvg typedHIH)))) = 2
   \<and> length (svgCircles (exportedSvg typedHIH)) = 3
   \<and> map radiusOf (svgCircles (exportedSvg typedHIH)) = [5, 5, 5]
   \<and> length (typedSequence initial_state) < 2
   \<and> exportAsSVG initial_state = initial_state"
proof -
  have h: "2 \<le> length (typedSequence typedHIH)
      \<and> (\<forall>l \<in> set (typedSequence typedHIH). keyPositions typedHIH l \<noteq> None)"
    by (simp add: typedHIH_fields)
  have i: "length (typedSequence initial_state) < 2" by (simp add: initial_state_def)
  from svg_export_counts [of typedHIH] h svg_export_counts [of initial_state] i
  show ?thesis by (simp add: typedHIH_fields circleFor_def)
qed

section \<open>The polyline\<close>

text \<open>
  Claim C2, amended. With at least two letters typed, and whatever positions are known,
  \<open>redrawLines\<close> on an available canvas paints exactly one path, and \<open>exportAsSVG\<close>
  writes exactly one path element. In both, the line-to commands are, in order, one for
  every pair of neighbouring letters whose two positions are known, to the position of
  the second letter, and none for any other pair; a pair with an unknown end stops
  neither the loop nor the stroke. When the positions of the first pair are known, the
  path is a move-to at the position of the first letter followed by these line-to
  commands.
\<close>

theorem polyline_pairs:
  assumes "2 \<le> length (typedSequence s)"
  shows "(ctx s \<noteq> None \<and> canvas s \<noteq> None \<longrightarrow>
            map (filter isLineTo) (paintedPaths (redrawLines s)) =
              [pairLines (keyPositions s) (typedSequence s)]
            \<and> (firstPairResolved (keyPositions s) (typedSequence s) \<longrightarrow>
                 paintedPaths (redrawLines s) =
                   [moveToFirst (keyPositions s) (typedSequence s)
                    @ pairLines (keyPositions s) (typedSequence s)]))
       \<and> map (filter isLineTo) (svgPaths (exportedSvg s)) =
            [pairLines (keyPositions s) (typedSequence s)]
       \<and> (firstPairResolved (keyPositions s) (typedSequence s) \<longrightarrow>
            svgPaths (exportedSvg s) =
              [moveToFirst (keyPositions s) (typedSequence s)
               @ pairLines (keyPositions s) (typedSequence s)])"
  using redrawLines_paths [OF _ _ assms] exportAsSVG_file(2) [OF assms]
  by (simp add: isLineTo_pairLines isLineTo_moveToFirst)

lemma typedABCD_fields:
  "typedSequence typedABCD = [''A'', ''B'', ''C'', ''D'']"
  "keyPositions typedABCD =
     [''A'' \<mapsto> \<lparr>kp_x = 0, kp_y = 0\<rparr>, ''B'' \<mapsto> \<lparr>kp_x = 1, kp_y = 0\<rparr>, ''D'' \<mapsto> \<lparr>kp_x = 3, kp_y = 0\<rparr>]"
  "ctx typedABCD \<noteq> None" "canvas typedABCD \<noteq> None"
  by (simp_all add: typedABCD_def initial_state_def)

theorem polyline_pairs_witness:
  "2 \<le> length (typedSequence typedABCD)
   \<and> ctx typedABCD \<noteq> None \<and> canvas typedABCD \<noteq> None
   \<and> firstPairResolved (keyPositions typedABCD) (typedSequence typedABCD)
   \<and> paintedPaths (redrawLines typedABCD) = [[MoveTo 0 0, LineTo 1 0]]
   \<and> svgPaths (exportedSvg typedABCD) = [[MoveTo 0 0, LineTo 1 0]]
   \<and> paintedPaths (redrawLines typedHIH) = [[MoveTo 6 2, LineTo 8 1, LineTo 6 2]]
   \<and> svgPaths (exportedSvg typedHIH) = [[MoveTo 6 2, LineTo 8 1, LineTo 6 2]]"
proof -
  have n: "2 \<le> length (typedSequence typedABCD)" "2 \<le> length (typedSequence typedHIH)"
    by (simp_all add: typedABCD_fields typedHIH_fields)
  have f: "firstPairResolved (keyPositions typedABCD) (typedSequence typedABCD)"
      "firstPairResolved (keyPositions typedHIH) (typedSequence typedHIH)"
    by (simp_all add: typedABCD_fields typedHIH_fields)
  have p: "moveToFirst (keyPositions typedABCD) (typedSequence typedABCD)
        @ pairLines (keyPositions typedABCD) (typedSequence typedABCD)
      = [MoveTo 0 0, LineTo 1 0]"
      "moveToFirst (keyPositions typedHIH) (typedSequence typedHIH)
        @ pairLines (keyPositions typedHIH) (typedSequence typedHIH)
      = [MoveTo 6 2, LineTo 8 1, LineTo 6 2]"
    by (simp_all add: typedABCD_fields typedHIH_fields)
  from polyline_pairs [OF n(1)] polyline_pairs [OF n(2)] n f
  have "paintedPaths (redrawLines typedABCD) =
          [moveToFirst (keyPositions typedABCD) (typedSequence typedABCD)
           @ pairLines (keyPositions typedABCD) (typedSequence typedABCD)]"
    "svgPaths (exportedSvg typedABCD) =
          [moveToFirst (keyPositions typedABCD) (typedSequence typedABCD)
           @ pairLines (keyPositions typedABCD) (typedSequence typedABCD)]"
    "paintedPaths (redrawLines typedHIH) =
          [moveToFirst (keyPositions typedHIH) (typedSequence typedHIH)
           @ pairLines (keyPositions typedHIH) (typedSequence typedHIH)]"
    "svgPaths (exportedSvg typedHIH) =
          [moveToFirst (keyPositions typedHIH) (typedSequence typedHIH)
           @ pairLines (keyPositions typedHIH) (typedSequence typedHIH)]"
    by (simp_all add: typedABCD_fields(3,4) typedHIH_fields(5,6))
  with p n f typedABCD_fields(3,4) show ?thesis by (simp only: simp_thms)
qed

text \<open>
  As stated, with a line-to for every later position that is known, the claim fails.
  With A, B, C, D typed and only the position of C unknown, both pairs around C are
  skipped, so D, whose position is known, gets no line-to, on the canvas or in the file.
\<close>

theorem polyline_pairs_counterexample:
  "keyPositions typedABCD ''D'' = Some \<lparr>kp_x = 3, kp_y = 0\<rparr>
   \<and> claimedPolyline (keyPositions typedABCD) (typedSequence typedABCD)
       = [MoveTo 0 0, LineTo 1 0, LineTo 3 0]
   \<and> paintedPaths (redrawLines typedABCD) = [[MoveTo 0 0, LineTo 1 0]]
   \<and> svgPaths (exportedSvg typedABCD) = [[MoveTo 0 0, LineTo 1 0]]
   \<and> paintedPaths (redrawLines typedABCD)
       \<noteq> [claimedPolyline (keyPositions typedABCD) (typedSequence typedABCD)]
   \<and> svgPaths (exportedSvg typedABCD)
       \<noteq> [claimedPolyline (keyPositions typedABCD) (typedSequence typedABCD)]"
proof -
  have n: "2 \<le> length (typedSequence typedABCD)" by (simp add: typedABCD_fields)
  have c: "claimedPolyline (keyPositions typedABCD) (typedSequence typedABCD)
       = [MoveTo 0 0, LineTo 1 0, LineTo 3 0]"
    by (simp add: claimedPolyline_def typedABCD_fields List.map_filter_simps)
  have r: "paintedPaths (redrawLines typedABCD) = [[MoveTo 0 0, LineTo 1 0]]"
    using redrawLines_paths [OF typedABCD_fields(3,4) n] by (simp add: typedABCD_fields)
  have x: "svgPaths (exportedSvg typedABCD) = [[MoveTo 0 0, LineTo 1 0]]"
    using exportAsSVG_file(2) [OF n] by (simp add: typedABCD_fields)
  show ?thesis by (simp add: c r x) (simp add: typedABCD_fields)
qed

section \<open>A missing canvas or context\<close>

text \<open>
  Claim C3, amended. \<open>redrawLines\<close> changes nothing when the canvas or its context is
  missing. \<open>exportAsPNG\<close> changes nothing and hands over no file when the canvas is
  missing; it does not look at the context, and with a canvas it hands over a file.
  \<open>exportAsSVG\<close> looks at neither: it paints nothing, does nothing below two letters,
  and from two letters on hands over a file, whose size attributes are undefined when
  the canvas is missing.
\<close>

theorem missing_surface:
  "(ctx s = None \<or> canvas s = None \<longrightarrow> redrawLines s = s)
   \<and> (canvas s = None \<longrightarrow> exportAsPNG s = s)
   \<and> (canvas s \<noteq> None \<longrightarrow> length (downloads (exportAsPNG s)) = length (downloads s) + 1)
   \<and> canvas (exportAsSVG s) = canvas s \<and> ctx (exportAsSVG s) = ctx s
   \<and> (length (typedSequence s) < 2 \<longrightarrow> exportAsSVG s = s)
   \<and> (2 \<le> length (typedSequence s) \<longrightarrow>
         length (downloads (exportAsSVG s)) = length (downloads s) + 1
         \<and> (canvas s = None \<longrightarrow> hd (svgPieces (exportedSvg s)) = SvgOpen None None))"
proof -
  have "ctx s = None \<or> canvas s = None \<longrightarrow> redrawLines s = s"
    by (auto simp: redrawLines_def split: option.splits)
  moreover have "canvas s = None \<longrightarrow> exportAsPNG s = s"
    by (simp add: exportAsPNG_def)
  moreover have "canvas s \<noteq> None \<longrightarrow> length (downloads (exportAsPNG s)) = length (downloads s) + 1"
    by (auto simp: exportAsPNG_def)
  moreover have "canvas (exportAsSVG s) = canvas s \<and> ctx (exportAsSVG s) = ctx s"
    by (simp add: exportAsSVG_def Let_def)
  moreover have "2 \<le> length (typedSequence s) \<longrightarrow> canvas s = None \<longrightarrow>
      hd (svgPieces (exportedSvg s)) = SvgOpen None None"
    by (simp add: exportAsSVG_def exportedSvg_def Let_def fold_svgDot)
  ultimately show ?thesis
    using exportAsSVG_short [of s] exportAsSVG_file(1) [of s] by blast
qed

lemma typed_ok_unmounted:
  "canvas (run [KeyDown ''o'', KeyDown ''k'', KeyDown ''Enter''] initial_state) = None"
  "ctx (run [KeyDown ''o'', KeyDown ''k'', KeyDown ''Enter''] initial_state) = None"
  "typedSequence (run [KeyDown ''o'', KeyDown ''k'', KeyDown ''Enter''] initial_state) = [''O'', ''K'']"
  "downloads (run [KeyDown ''o'', KeyDown ''k'', KeyDown ''Enter''] initial_state) = []"
  "showExportButtons (run [KeyDown ''o'', KeyDown ''k'', KeyDown ''Enter''] initial_state)"
  by code_simp+

theorem missing_surface_witness:
  "canvas (run [KeyDown ''o'', KeyDown ''k'', KeyDown ''Enter''] initial_state) = None
   \<and> 2 \<le> length (typedSequence (run [KeyDown ''o'', KeyDown ''k'', KeyDown ''Enter''] initial_state))
   \<and> redrawLines (run [KeyDown ''o'', KeyDown ''k'', KeyDown ''Enter''] initial_state)
       = run [KeyDown ''o'', KeyDown ''k'', KeyDown ''Enter''] initial_state
   \<and> exportAsPNG (run [KeyDown ''o'', KeyDown ''k'', KeyDown ''Enter''] initial_state)
       = run [KeyDown ''o'', KeyDown ''k'', KeyDown ''Enter''] initial_state
   \<and> length (downloads (exportAsSVG (run [KeyDown ''o'', KeyDown ''k'', KeyDown ''Enter''] initial_state))) = 1
   \<and> hd (svgPieces (exportedSvg (run [KeyDown ''o'', KeyDown ''k'', KeyDown ''Enter''] initial_state)))
       = SvgOpen None None
   \<and> canvas typedHIH \<noteq> None
   \<and> length (downloads (exportAsPNG typedHIH)) = 1
   \<and> length (typedSequence initial_state) < 2
   \<and> exportAsSVG initial_state = initial_state"
proof -
  let ?s = "run [KeyDown ''o'', KeyDown ''k'', KeyDown ''Enter''] initial_state"
  have n: "2 \<le> length (typedSequence ?s)" by (simp only: typed_ok_unmounted) simp
  have i: "length (typedSequence initial_state) < 2" by (simp add: initial_state_def)
  from missing_surface [of ?s] typed_ok_unmounted(1) n
  have "redrawLines ?s = ?s" "exportAsPNG ?s = ?s"
    "length (downloads (exportAsSVG ?s)) = length (downloads ?s) + 1"
    "hd (svgPieces (exportedSvg ?s)) = SvgOpen None None"
    by blast+
  moreover from missing_surface [of typedHIH] typedHIH_fields(6)
  have "length (downloads (exportAsPNG typedHIH)) = length (downloads typedHIH) + 1"
    by blast
  moreover from missing_surface [of initial_state] i
  have "exportAsSVG initial_state = initial_state" by blast
  ultimately show ?thesis
    using n i typed_ok_unmounted(1,4) typedHIH_fields(3,6) by (simp only:) simp
qed

text \<open>
  As stated, for every draw and export operation, the claim fails. On a page whose
  canvas and context are both missing, a click on the SVG button downloads a file; on a
  page whose canvas gave no context, a click on the PNG button downloads one as well.
\<close>

lemma no_context_page:
  "canvas (run [Mount (Some \<lparr>cv_width = 300, cv_height = 150, cv_bitmap = []\<rparr>) None 800 600,
                KeyDown ''o'', KeyDown ''k'', KeyDown ''Enter''] initial_state) \<noteq> None"
  "ctx (run [Mount (Some \<lparr>cv_width = 300, cv_height = 150, cv_bitmap = []\<rparr>) None 800 600,
             KeyDown ''o'', KeyDown ''k'', KeyDown ''Enter''] initial_state) = None"
  "length (downloads (run [Mount (Some \<lparr>cv_width = 300, cv_height = 150, cv_bitmap = []\<rparr>) None 800 600,
             KeyDown ''o'', KeyDown ''k'', KeyDown ''Enter'', ClickExportPNG] initial_state)) = 1"
  "length (downloads (run [Mount (Some \<lparr>cv_width = 300, cv_height = 150, cv_bitmap = []\<rparr>) None 800 600,
             KeyDown ''o'', KeyDown ''k'', KeyDown ''Enter'', ClickExportSVG] initial_state)) = 1"
  by code_simp+

lemma unmounted_page:
  "length (downloads (run [KeyDown ''o'', KeyDown ''k'', KeyDown ''Enter'', ClickExportSVG]
      initial_state)) = 1"
  by code_simp

theorem missing_surface_counterexample:
  "canvas (run [KeyDown ''o'', KeyDown ''k'', KeyDown ''Enter''] initial_state) = None
   \<and> ctx (run [KeyDown ''o'', KeyDown ''k'', KeyDown ''Enter''] initial_state) = None
   \<and> downloads (run [KeyDown ''o'', KeyDown ''k'', KeyDown ''Enter''] initial_state) = []
   \<and> length (downloads (run [KeyDown ''o'', KeyDown ''k'', KeyDown ''Enter'', ClickExportSVG]
        initial_state)) = 1
   \<and> ctx (run [Mount (Some \<lparr>cv_width = 300, cv_height = 150, cv_bitmap = []\<rparr>) None 800 600,
             KeyDown ''o'', KeyDown ''k'', KeyDown ''Enter''] initial_state) = None
   \<and> length (downloads (run [Mount (Some \<lparr>cv_width = 300, cv_height = 150, cv_bitmap = []\<rparr>) None 800 600,
             KeyDown ''o'', KeyDown ''k'', KeyDown ''Enter'', ClickExportPNG] initial_state)) = 1
   \<and> length (downloads (run [Mount (Some \<lparr>cv_width = 300, cv_height = 150, cv_bitmap = []\<rparr>) None 800 600,
             KeyDown ''o'', KeyDown ''k'', KeyDown ''Enter'', ClickExportSVG] initial_state)) = 1"
  using typed_ok_unmounted(1,2,4) unmounted_page no_context_page(2,3,4)
  by (simp only: simp_thms)

end
